theory Spec2Isabelle
  imports Main "HOL-Library.Multiset"
begin

section \<open>Python text primitives used by the scanners\<close>

text \<open>
  A Python \<open>str\<close> is a sequence of code points. The model writes it as a \<open>string\<close> whose
  characters stand for the code points below 256, one \<open>char\<close> each; text with code points
  from 256 on is outside the model. The character classes below are the ones Python's
  \<open>str.isspace\<close>, \<open>str.splitlines\<close>, \<open>str.isdigit\<close>, \<open>str.isdecimal\<close> and
  \<open>str.lower\<close> use on that range.
\<close>

definition py_isspace :: "char \<Rightarrow> bool" where
  "py_isspace c = (c \<in> set [CHR 0x09, CHR 0x0A, CHR 0x0B, CHR 0x0C, CHR 0x0D,
                              CHR 0x1C, CHR 0x1D, CHR 0x1E, CHR 0x1F, CHR 0x20,
                              CHR 0x85, CHR 0xA0])"

definition py_linebreak :: "char \<Rightarrow> bool" where
  "py_linebreak c = (c \<in> set [CHR 0x0A, CHR 0x0B, CHR 0x0C, CHR 0x0D,
                                CHR 0x1C, CHR 0x1D, CHR 0x1E, CHR 0x85])"

definition py_isdecimal :: "char \<Rightarrow> bool" where
  "py_isdecimal c = (c \<in> set ''0123456789'')"

text \<open>
  \<open>str.isdigit\<close> also accepts the superscript digits U+00B2, U+00B3 and U+00B9, which
  \<open>int\<close> and \<open>str.isdecimal\<close> reject.
\<close>

definition py_isdigit :: "char \<Rightarrow> bool" where
  "py_isdigit c = (py_isdecimal c \<or> c \<in> set [CHR 0xB2, CHR 0xB3, CHR 0xB9])"

definition isdigit :: "string \<Rightarrow> bool" where
  "isdigit s = (s \<noteq> [] \<and> list_all py_isdigit s)"

definition py_lower :: "char \<Rightarrow> char" where
  "py_lower c =
     (let n = (of_char c :: nat)
      in if (65 \<le> n \<and> n \<le> 90) \<or> (192 \<le> n \<and> n \<le> 222 \<and> n \<noteq> 215)
         then char_of (n + 32) else c)"

definition lower :: "string \<Rightarrow> string" where
  "lower s = map py_lower s"

definition strip :: "string \<Rightarrow> string" where
  "strip s = rev (dropWhile py_isspace (rev (dropWhile py_isspace s)))"

definition startswith :: "string \<Rightarrow> string \<Rightarrow> bool" where
  "startswith s p = (take (length p) s = p)"

text \<open>\<open>contains s sub\<close> is Python's \<open>sub in s\<close>.\<close>

fun contains :: "string \<Rightarrow> string \<Rightarrow> bool" where
  "contains [] sub = (sub = [])"
| "contains (c # cs) sub = (startswith (c # cs) sub \<or> contains cs sub)"

text \<open>
  \<open>str.splitlines\<close>: a line ends at a line boundary, \<open>\r\n\<close> counts as one boundary, and
  no empty string follows the last boundary.
\<close>

fun splitlines_from :: "string \<Rightarrow> string \<Rightarrow> string list" where
  "splitlines_from cur [] = (if cur = [] then [] else [cur])"
| "splitlines_from cur [c] = (if py_linebreak c then [cur] else [cur @ [c]])"
| "splitlines_from cur (c # d # cs) =
     (if c = CHR 0x0D \<and> d = CHR 0x0A then cur # splitlines_from [] cs
      else if py_linebreak c then cur # splitlines_from [] (d # cs)
      else splitlines_from (cur @ [c]) (d # cs))"

definition splitlines :: "string \<Rightarrow> string list" where
  "splitlines s = splitlines_from [] s"

text \<open>
  \<open>str.replace(old, new)\<close> replaces the non-overlapping occurrences of \<open>old\<close> from the
  left; with an empty \<open>old\<close> it puts \<open>new\<close> before every character and at the end.
\<close>

function replace :: "string \<Rightarrow> string \<Rightarrow> string \<Rightarrow> string" where
  "replace old new [] = (if old = [] then new else [])"
| "replace old new (c # cs) =
     (if old = [] then new @ c # replace old new cs
      else if startswith (c # cs) old then new @ replace old new (drop (length old) (c # cs))
      else c # replace old new cs)"
  by pat_completeness auto
termination
  by (relation "measure (\<lambda>(old, new, s). length s)") auto

text \<open>\<open>str.split(sep)\<close> for a separator of one character, as in \<open>split(':')\<close>.\<close>

fun split_from :: "char \<Rightarrow> string \<Rightarrow> string \<Rightarrow> string list" where
  "split_from sep cur [] = [cur]"
| "split_from sep cur (c # cs) =
     (if c = sep then cur # split_from sep [] cs else split_from sep (cur @ [c]) cs)"

definition split :: "string \<Rightarrow> char \<Rightarrow> string list" where
  "split s sep = split_from sep [] s"

text \<open>
  \<open>int(s)\<close> on a string: surrounding whitespace is dropped, a sign may lead, and the rest
  is decimal digits with single underscores allowed between digits. Anything else raises
  \<open>ValueError\<close>, here \<open>None\<close>. Python integers are unbounded; the interpreter's configurable
  cap on the number of digits of a conversion is not modelled.
\<close>

definition digit_val :: "char \<Rightarrow> int" where
  "digit_val c = int (of_char c) - 48"

definition digits_val :: "string \<Rightarrow> int" where
  "digits_val s = foldl (\<lambda>acc c. 10 * acc + digit_val c) 0 s"

fun digit_groups :: "string \<Rightarrow> bool" where
  "digit_groups [] = False"
| "digit_groups [c] = py_isdecimal c"
| "digit_groups (c # d # cs) =
     (py_isdecimal c \<and> (if d = CHR ''_'' then digit_groups cs else digit_groups (d # cs)))"

definition unsigned_int :: "string \<Rightarrow> int option" where
  "unsigned_int s =
     (if digit_groups s then Some (digits_val (filter (\<lambda>c. c \<noteq> CHR ''_'') s)) else None)"

definition py_int :: "string \<Rightarrow> int option" where
  "py_int s =
     (case strip s of
        [] \<Rightarrow> None
      | c # cs \<Rightarrow>
          if c = CHR ''-'' then map_option uminus (unsigned_int cs)
          else if c = CHR ''+'' then unsigned_int cs
          else unsigned_int (c # cs))"

text \<open>\<open>str(n)\<close> for an integer.\<close>

fun nat_digits :: "nat \<Rightarrow> string" where
  "nat_digits n =
     (if n < 10 then [char_of (48 + n)] else nat_digits (n div 10) @ [char_of (48 + n mod 10)])"

definition str_int :: "int \<Rightarrow> string" where
  "str_int i = (if i < 0 then CHR ''-'' # nat_digits (nat (- i)) else nat_digits (nat i))"

text \<open>The format specification \<open><w\<close>: left-aligned in a field of width \<open>w\<close>.\<close>

definition ljust :: "string \<Rightarrow> nat \<Rightarrow> string" where
  "ljust s w = s @ replicate (w - length s) (CHR '' '')"

section \<open>Values and errors\<close>

text \<open>
  The values \<open>json.loads\<close> returns, which are also the values a Termux network record
  carries through: \<open>JNull\<close> is Python's \<open>None\<close>, an object is a \<open>dict\<close> given by its
  items in order. JSON numbers with a fraction or an exponent (Python floats) are outside
  the model.
\<close>

datatype json =
    JNull
  | JBool bool
  | JInt int
  | JStr string
  | JArr "json list"
  | JObj "(string \<times> json) list"

text \<open>
  The exceptions the scanners raise or let through. A \<open>RuntimeError\<close> carries what its
  message is built from instead of the formatted message.
\<close>

datatype runtime_reason =
    ScanFailed string
  | TermuxAPIError json
  | ScanTimedOut
  | ParseFailed string
  | ToolNotFound

datatype py_error =
    RuntimeError runtime_reason
  | CalledProcessError int
  | FileNotFoundError
  | TimeoutExpired
  | ValueError
  | TypeError
  | AttributeError
  | ZeroDivisionError

text \<open>
  What \<open>subprocess.run\<close> gives back: a completed process with its return code, standard
  output and standard error, or an exception. The tools themselves are outside the
  repository; their outcome is the input of each scanner.
\<close>

datatype run_result =
    Completed int string string
  | Raised py_error

text \<open>
  \<open>int(x / y)\<close> for integers \<open>x\<close> and \<open>y \<noteq> 0\<close>: Python divides as floats and \<open>int\<close>
  truncates toward zero. The model truncates the exact quotient; the two agree as long as
  \<open>\<bar>x\<bar> + \<bar>y\<bar> < 2 ^ 53\<close>, where the float quotient cannot round up to the next integer.
\<close>

definition int_quotient :: "int \<Rightarrow> int \<Rightarrow> int" where
  "int_quotient x y = sgn x * sgn y * (\<bar>x\<bar> div \<bar>y\<bar>)"

section \<open>Signal and channel normalizers (wifi\_scanner\_termux.py)\<close>

text \<open>\<open>dbm_to_percent\<close> and \<open>freq_to_channel\<close> on integers.\<close>

definition dbm_to_percent :: "int \<Rightarrow> int" where
  "dbm_to_percent rssi =
     (if rssi \<ge> -30 then 100
      else if rssi \<le> -90 then 0
      else int_quotient (100 * (rssi + 90)) 60)"

definition freq_to_channel :: "int \<Rightarrow> int option" where
  "freq_to_channel freq_mhz =
     (if 2412 \<le> freq_mhz \<and> freq_mhz \<le> 2484 then
        (if freq_mhz = 2484 then Some 14 else Some ((freq_mhz - 2412) div 5 + 1))
      else if 5170 \<le> freq_mhz \<and> freq_mhz \<le> 5825 then Some ((freq_mhz - 5170) div 5 + 34)
      else if 5955 \<le> freq_mhz \<and> freq_mhz \<le> 7115 then Some ((freq_mhz - 5955) div 5 + 1)
      else None)"

text \<open>
  The conversion the iwlist parser applies to a \<open>dBm\<close> signal level
  (wifi\_scanner\_linux.py, line 106): \<open>max(0, min(100, 2 * (dbm + 100)))\<close>.
\<close>

definition iwlist_dbm_signal :: "int \<Rightarrow> int" where
  "iwlist_dbm_signal dbm = max 0 (min 100 (2 * (dbm + 100)))"

section \<open>Regular expressions\<close>

text \<open>
  The patterns of the two multi-line parsers, with the backtracking semantics of Python's
  \<open>re\<close>: \<open>rmatch r s c\<close> lists, in the order the matcher tries them, the ways \<open>r\<close> can
  match at the front of \<open>s\<close>, each as the unread rest of \<open>s\<close> and the groups captured so
  far (latest first). Repetition is greedy. \<open>re.search\<close> takes the first way at the
  leftmost position that has one. An iteration of a repetition that reads nothing is cut,
  which no pattern below can produce: every repeated expression reads one character.
\<close>

datatype regex =
    Eps
  | Class "char \<Rightarrow> bool"
  | Seq regex regex
  | Alt regex regex
  | Star regex
  | Group nat regex

type_synonym caps = "(nat \<times> string) list"

fun rmatch :: "regex \<Rightarrow> string \<Rightarrow> caps \<Rightarrow> (string \<times> caps) list" where
  "rmatch Eps s c = [(s, c)]"
| "rmatch (Class P) s c = (case s of [] \<Rightarrow> [] | x # xs \<Rightarrow> if P x then [(xs, c)] else [])"
| "rmatch (Seq a b) s c = concat (map (\<lambda>(s', c'). rmatch b s' c') (rmatch a s c))"
| "rmatch (Alt a b) s c = rmatch a s c @ rmatch b s c"
| "rmatch (Star a) s c =
     concat (map (\<lambda>(s', c'). if length s' < length s then rmatch (Star a) s' c' else [])
                 (rmatch a s c)) @ [(s, c)]"
| "rmatch (Group i a) s c =
     map (\<lambda>(s', c'). (s', (i, take (length s - length s') s) # c')) (rmatch a s c)"

fun re_search :: "regex \<Rightarrow> string \<Rightarrow> caps option" where
  "re_search r [] = (case rmatch r [] [] of [] \<Rightarrow> None | (s', c) # _ \<Rightarrow> Some c)"
| "re_search r (x # xs) =
     (case rmatch r (x # xs) [] of [] \<Rightarrow> re_search r xs | (s', c) # _ \<Rightarrow> Some c)"

text \<open>\<open>match.group(i)\<close>; a group that took no part in the match is \<open>None\<close>.\<close>

definition group :: "caps \<Rightarrow> nat \<Rightarrow> string option" where
  "group m i = map_of m i"

definition Lit :: "char \<Rightarrow> regex" where
  "Lit ch = Class (\<lambda>x. x = ch)"

definition Lits :: "string \<Rightarrow> regex" where
  "Lits s = foldr (\<lambda>ch r. Seq (Lit ch) r) s Eps"

definition Plus :: "regex \<Rightarrow> regex" where
  "Plus a = Seq a (Star a)"

definition Opt :: "regex \<Rightarrow> regex" where
  "Opt a = Alt a Eps"

definition Seqs :: "regex list \<Rightarrow> regex" where
  "Seqs rs = foldr Seq rs Eps"

text \<open>\<open>\s\<close>, \<open>\d\<close>, \<open>[0-9A-Fa-f:]\<close>, \<open>[^"]\<close> and \<open>.\<close> (anything but a newline).\<close>

definition re_space :: regex where
  "re_space = Class py_isspace"

definition re_digit :: regex where
  "re_digit = Class py_isdecimal"

definition re_hexcolon :: regex where
  "re_hexcolon = Class (\<lambda>c. c \<in> set ''0123456789ABCDEFabcdef:'')"

definition re_notquote :: regex where
  "re_notquote = Class (\<lambda>c. c \<noteq> CHR 0x22)"

definition re_dot :: regex where
  "re_dot = Class (\<lambda>c. c \<noteq> CHR 0x0A)"

text \<open>wifi\_scanner\_linux.py: \<^verbatim>\<open>Address:\s*([0-9A-Fa-f:]+)\<close>\<close>

definition re_address :: regex where
  "re_address = Seqs [Lits ''Address:'', Star re_space, Group 1 (Plus re_hexcolon)]"

text \<open>\<^verbatim>\<open>Channel:(\d+)\<close>\<close>

definition re_channel :: regex where
  "re_channel = Seqs [Lits ''Channel:'', Group 1 (Plus re_digit)]"

text \<open>\<^verbatim>\<open>Signal level[=:]?\s*(-?\d+)\s*dBm\<close>\<close>

definition re_signal_dbm :: regex where
  "re_signal_dbm =
     Seqs [Lits ''Signal level'', Opt (Class (\<lambda>c. c \<in> set ''=:'')), Star re_space,
           Group 1 (Seq (Opt (Lit (CHR ''-''))) (Plus re_digit)), Star re_space, Lits ''dBm'']"

text \<open>\<^verbatim>\<open>Signal level[=:]?\s*(\d+)/(\d+)\<close>\<close>

definition re_signal_ratio :: regex where
  "re_signal_ratio =
     Seqs [Lits ''Signal level'', Opt (Class (\<lambda>c. c \<in> set ''=:'')), Star re_space,
           Group 1 (Plus re_digit), Lit (CHR ''/''), Group 2 (Plus re_digit)]"

text \<open>\<^verbatim>\<open>ESSID:"([^"]*)"\<close>\<close>

definition re_essid :: regex where
  "re_essid = Seqs [Lits ''ESSID:'', Lit (CHR 0x22), Group 1 (Star re_notquote), Lit (CHR 0x22)]"

text \<open>wifi\_scanner\_windows.py: \<^verbatim>\<open>SSID\s*\d*\s*:\s*(.+)\<close>\<close>

definition re_ssid :: regex where
  "re_ssid =
     Seqs [Lits ''SSID'', Star re_space, Star re_digit, Star re_space, Lit (CHR '':''),
           Star re_space, Group 1 (Plus re_dot)]"

text \<open>\<^verbatim>\<open>BSSID\s*\d*\s*:\s*([0-9a-fA-F:]+)\<close>\<close>

definition re_bssid :: regex where
  "re_bssid =
     Seqs [Lits ''BSSID'', Star re_space, Star re_digit, Star re_space, Lit (CHR '':''),
           Star re_space, Group 1 (Plus re_hexcolon)]"

text \<open>\<^verbatim>\<open>:\s*(\d+)%\<close> and \<^verbatim>\<open>:\s*(\d+)\<close>\<close>

definition re_percent :: regex where
  "re_percent = Seqs [Lit (CHR '':''), Star re_space, Group 1 (Plus re_digit), Lit (CHR ''%'')]"

definition re_number :: regex where
  "re_number = Seqs [Lit (CHR '':''), Star re_space, Group 1 (Plus re_digit)]"

text \<open>
  \<open>int(match.group(i))\<close> and \<open>match.group(i)\<close> used as a string: \<open>int(None)\<close> raises
  \<open>TypeError\<close>, a method call on \<open>None\<close> raises \<open>AttributeError\<close>.
\<close>

definition int_group :: "caps \<Rightarrow> nat \<Rightarrow> py_error + int" where
  "int_group m i =
     (case group m i of
        None \<Rightarrow> Inl TypeError
      | Some g \<Rightarrow> (case py_int g of None \<Rightarrow> Inl ValueError | Some n \<Rightarrow> Inr n))"

definition str_group :: "caps \<Rightarrow> nat \<Rightarrow> py_error + string" where
  "str_group m i = (case group m i of None \<Rightarrow> Inl AttributeError | Some g \<Rightarrow> Inr g)"

text \<open>
  What the matcher can read and capture, for the proofs: the words of an expression, the
  expressions inside the groups numbered \<open>i\<close>, and whether every match captures group \<open>i\<close>.
\<close>

primrec lang :: "regex \<Rightarrow> string set" where
  "lang Eps = {[]}"
| "lang (Class P) = {[x] |x. P x}"
| "lang (Seq a b) = {u @ v |u v. u \<in> lang a \<and> v \<in> lang b}"
| "lang (Alt a b) = lang a \<union> lang b"
| "lang (Star a) = {concat ws |ws. set ws \<subseteq> lang a}"
| "lang (Group i a) = lang a"

primrec bodies :: "regex \<Rightarrow> nat \<Rightarrow> regex set" where
  "bodies Eps i = {}"
| "bodies (Class P) i = {}"
| "bodies (Seq a b) i = bodies a i \<union> bodies b i"
| "bodies (Alt a b) i = bodies a i \<union> bodies b i"
| "bodies (Star a) i = bodies a i"
| "bodies (Group j a) i = (if i = j then insert a (bodies a i) else bodies a i)"

primrec certain :: "regex \<Rightarrow> nat \<Rightarrow> bool" where
  "certain Eps i = False"
| "certain (Class P) i = False"
| "certain (Seq a b) i = (certain a i \<or> certain b i)"
| "certain (Alt a b) i = (certain a i \<and> certain b i)"
| "certain (Star a) i = False"
| "certain (Group j a) i = (i = j \<or> certain a i)"

section \<open>Network records of the Linux and Windows scanners\<close>

text \<open>
  A network is a \<open>dict\<close> with the keys \<open>ssid\<close>, \<open>bssid\<close>, \<open>signal\<close> and \<open>channel\<close>. A
  field is \<open>None\<close> when the key is missing; \<open>signal\<close> and \<open>channel\<close> can also be present
  with the value \<open>None\<close>, written \<open>Some None\<close>. The empty \<open>dict\<close> is \<open>empty_network\<close>.
  Lists of networks are values: where the source appends the accumulator and goes on
  writing to it, it appends a copy or rebinds the accumulator first.
\<close>

record network =
  ssid :: "string option"
  bssid :: "string option"
  signal :: "int option option"
  channel :: "int option option"

definition empty_network :: network where
  "empty_network = \<lparr>ssid = None, bssid = None, signal = None, channel = None\<rparr>"

text \<open>The test \<open>if current_network.get('bssid')\<close>: the key is there and its string is not empty.\<close>

definition has_bssid :: "network \<Rightarrow> bool" where
  "has_bssid n = (case bssid n of None \<Rightarrow> False | Some b \<Rightarrow> b \<noteq> [])"

text \<open>A loop over lines that stops at the first exception.\<close>

fun for_lines :: "('s \<Rightarrow> string \<Rightarrow> py_error + 's) \<Rightarrow> 's \<Rightarrow> string list \<Rightarrow> py_error + 's" where
  "for_lines body st [] = Inr st"
| "for_lines body st (line # rest) =
     (case body st line of Inl e \<Rightarrow> Inl e | Inr st' \<Rightarrow> for_lines body st' rest)"

text \<open>The closing \<open>if current_network.get('bssid'): networks.append(current_network)\<close>.\<close>

definition flush :: "network list \<times> network \<Rightarrow> network list" where
  "flush st = (if has_bssid (snd st) then fst st @ [snd st] else fst st)"

text \<open>\<open>subprocess.run(..., check=True)\<close>: the standard output of a run that returned 0.\<close>

definition checked_stdout :: "run_result \<Rightarrow> py_error + string" where
  "checked_stdout r =
     (case r of
        Raised e \<Rightarrow> Inl e
      | Completed rc out err \<Rightarrow> if rc \<noteq> 0 then Inl (CalledProcessError rc) else Inr out)"

section \<open>The terse parser (get\_wifi\_bssids\_nmcli, wifi\_scanner\_linux.py)\<close>

text \<open>\<open>int(field) if field.isdigit() else None\<close>.\<close>

definition int_if_isdigit :: "string \<Rightarrow> py_error + int option" where
  "int_if_isdigit field =
     (if isdigit field
      then (case py_int field of None \<Rightarrow> Inl ValueError | Some n \<Rightarrow> Inr (Some n))
      else Inr None)"

text \<open>
  The body of the loop over the lines of the listing: a blank line and a line with fewer
  than four fields leave the list as it is.
\<close>

definition nmcli_line :: "network list \<Rightarrow> string \<Rightarrow> py_error + network list" where
  "nmcli_line networks line =
     (if strip line = [] then Inr networks
      else
        let line_clean = replace [CHR 0x5C, CHR '':''] ''##COLON##'' line;
            parts = split line_clean (CHR '':'')
        in if length parts \<ge> 4 then
             (let ssid_v = replace ''##COLON##'' '':'' (parts ! 0);
                  bssid_v = lower (replace ''##COLON##'' '':'' (parts ! 1));
                  signal_v = parts ! 2;
                  channel_v = parts ! 3
              in case int_if_isdigit signal_v of
                   Inl e \<Rightarrow> Inl e
                 | Inr sig \<Rightarrow>
                     (case int_if_isdigit channel_v of
                        Inl e \<Rightarrow> Inl e
                      | Inr ch \<Rightarrow>
                          Inr (networks @
                               [\<lparr>ssid = Some (if ssid_v \<noteq> [] then ssid_v else ''<Hidden>''),
                                 bssid = Some bssid_v,
                                 signal = Some sig,
                                 channel = Some ch\<rparr>])))
           else Inr networks)"

text \<open>
  The rescan comes first: its return code is not checked, and of its exceptions only
  \<open>CalledProcessError\<close> and \<open>TimeoutExpired\<close> are swallowed. The listing runs with
  \<open>check=True\<close>.
\<close>

definition get_wifi_bssids_nmcli :: "run_result \<Rightarrow> run_result \<Rightarrow> py_error + network list" where
  "get_wifi_bssids_nmcli rescan listing =
     (case (case rescan of
              Raised (CalledProcessError rc) \<Rightarrow> None
            | Raised TimeoutExpired \<Rightarrow> None
            | Raised e \<Rightarrow> Some e
            | Completed rc out err \<Rightarrow> None) of
        Some e \<Rightarrow> Inl e
      | None \<Rightarrow>
          (case checked_stdout listing of
             Inl e \<Rightarrow> Inl e
           | Inr out \<Rightarrow> for_lines nmcli_line [] (splitlines out)))"

section \<open>The cell-block parser (get\_wifi\_bssids\_iwlist, wifi\_scanner\_linux.py)\<close>

text \<open>The body of the loop: the state is \<open>networks\<close> and \<open>current_network\<close>.\<close>

definition iwlist_line :: "network list \<times> network \<Rightarrow> string \<Rightarrow> py_error + network list \<times> network" where
  "iwlist_line st raw =
     (let networks = fst st; current_network = snd st; line = strip raw
      in if startswith line ''Cell'' then
           (let networks' = (if has_bssid current_network then networks @ [current_network]
                             else networks)
            in case re_search re_address line of
                 None \<Rightarrow> Inr (networks', empty_network)
               | Some m \<Rightarrow>
                   (case str_group m 1 of
                      Inl e \<Rightarrow> Inl e
                    | Inr g \<Rightarrow> Inr (networks', empty_network\<lparr>bssid := Some (lower g)\<rparr>)))
         else if contains line ''Channel:'' then
           (case re_search re_channel line of
              None \<Rightarrow> Inr st
            | Some m \<Rightarrow>
                (case int_group m 1 of
                   Inl e \<Rightarrow> Inl e
                 | Inr n \<Rightarrow> Inr (networks, current_network\<lparr>channel := Some (Some n)\<rparr>)))
         else if contains line ''Signal level'' then
           (case re_search re_signal_dbm line of
              Some m \<Rightarrow>
                (case int_group m 1 of
                   Inl e \<Rightarrow> Inl e
                 | Inr dbm \<Rightarrow>
                     Inr (networks,
                          current_network\<lparr>signal := Some (Some (iwlist_dbm_signal dbm))\<rparr>))
            | None \<Rightarrow>
                (case re_search re_signal_ratio line of
                   None \<Rightarrow> Inr st
                 | Some m \<Rightarrow>
                     (case int_group m 1 of
                        Inl e \<Rightarrow> Inl e
                      | Inr a \<Rightarrow>
                          (case int_group m 2 of
                             Inl e \<Rightarrow> Inl e
                           | Inr b \<Rightarrow>
                               if b = 0 then Inl ZeroDivisionError
                               else Inr (networks,
                                         current_network
                                           \<lparr>signal := Some (Some (int_quotient (100 * a) b))\<rparr>)))))
         else if contains line ''ESSID:'' then
           (case re_search re_essid line of
              None \<Rightarrow> Inr st
            | Some m \<Rightarrow>
                (case group m 1 of
                   None \<Rightarrow> Inr (networks, current_network\<lparr>ssid := Some ''<Hidden>''\<rparr>)
                 | Some g \<Rightarrow>
                     Inr (networks,
                          current_network\<lparr>ssid := Some (if g \<noteq> [] then g else ''<Hidden>'')\<rparr>)))
         else Inr st)"

definition get_wifi_bssids_iwlist :: "run_result \<Rightarrow> py_error + network list" where
  "get_wifi_bssids_iwlist scan =
     (case checked_stdout scan of
        Inl e \<Rightarrow> Inl e
      | Inr out \<Rightarrow>
          (case for_lines iwlist_line ([], empty_network) (splitlines out) of
             Inl e \<Rightarrow> Inl e
           | Inr st \<Rightarrow> Inr (flush st)))"

section \<open>The netsh parser (get\_wifi\_bssids, wifi\_scanner\_windows.py)\<close>

definition netsh_line :: "network list \<times> network \<Rightarrow> string \<Rightarrow> py_error + network list \<times> network" where
  "netsh_line st raw =
     (let networks = fst st; current_network = snd st; line = strip raw
      in if startswith line ''SSID'' \<and> \<not> contains line ''BSSID'' then
           (let st' = (if has_bssid current_network
                       then (networks @ [current_network], empty_network) else st)
            in case re_search re_ssid line of
                 None \<Rightarrow> Inr st'
               | Some m \<Rightarrow>
                   (case str_group m 1 of
                      Inl e \<Rightarrow> Inl e
                    | Inr g \<Rightarrow> Inr (fst st', (snd st')\<lparr>ssid := Some (strip g)\<rparr>)))
         else if contains line ''BSSID'' then
           (case re_search re_bssid line of
              None \<Rightarrow> Inr st
            | Some m \<Rightarrow>
                (let networks' = (if has_bssid current_network then networks @ [current_network]
                                  else networks)
                 in case str_group m 1 of
                      Inl e \<Rightarrow> Inl e
                    | Inr g \<Rightarrow> Inr (networks', current_network\<lparr>bssid := Some (lower g)\<rparr>)))
         else if contains line ''Signal'' \<or> contains line ''Intensit'' then
           (case re_search re_percent line of
              None \<Rightarrow> Inr st
            | Some m \<Rightarrow>
                (case int_group m 1 of
                   Inl e \<Rightarrow> Inl e
                 | Inr n \<Rightarrow> Inr (networks, current_network\<lparr>signal := Some (Some n)\<rparr>)))
         else if contains line ''Channel'' \<or> contains line ''Canal'' then
           (case re_search re_number line of
              None \<Rightarrow> Inr st
            | Some m \<Rightarrow>
                (case int_group m 1 of
                   Inl e \<Rightarrow> Inl e
                 | Inr n \<Rightarrow> Inr (networks, current_network\<lparr>channel := Some (Some n)\<rparr>)))
         else Inr st)"

definition windows_get_wifi_bssids :: "run_result \<Rightarrow> py_error + network list" where
  "windows_get_wifi_bssids scan =
     (case checked_stdout scan of
        Inl e \<Rightarrow> Inl e
      | Inr out \<Rightarrow>
          (case for_lines netsh_line ([], empty_network) (splitlines out) of
             Inl e \<Rightarrow> Inl e
           | Inr st \<Rightarrow> Inr (flush st)))"

section \<open>The presenter (print\_networks, wifi\_scanner\_linux.py and wifi\_scanner\_windows.py)\<close>

text \<open>\<open>net.get('signal')\<close>, and the sort key \<open>x.get('signal') or 0\<close>.\<close>

definition get_signal :: "network \<Rightarrow> int option" where
  "get_signal n = (case signal n of None \<Rightarrow> None | Some v \<Rightarrow> v)"

definition signal_or_0 :: "network \<Rightarrow> int" where
  "signal_or_0 n = (case get_signal n of None \<Rightarrow> 0 | Some v \<Rightarrow> if v \<noteq> 0 then v else 0)"

text \<open>
  One row of the table. A \<open>channel\<close> that is present with the value \<open>None\<close> reaches the
  format specification \<open><8\<close>, which \<open>None\<close> does not support: \<open>TypeError\<close>.
\<close>

definition format_row :: "network \<Rightarrow> py_error + string" where
  "format_row net =
     (let ssid_v = take 31 (case ssid net of None \<Rightarrow> ''<Hidden>'' | Some v \<Rightarrow> v);
          bssid_v = (case bssid net of None \<Rightarrow> ''N/A'' | Some b \<Rightarrow> b);
          signal_v = (case get_signal net of Some v \<Rightarrow> str_int v @ ''%'' | None \<Rightarrow> ''N/A'')
      in case (case channel net of
                 None \<Rightarrow> Some ''N/A''
               | Some None \<Rightarrow> None
               | Some (Some ch) \<Rightarrow> Some (str_int ch)) of
           None \<Rightarrow> Inl TypeError
         | Some channel_v \<Rightarrow>
             Inr (ljust ssid_v 32 @ '' '' @ ljust bssid_v 20 @ '' '' @ ljust signal_v 8 @ '' '' @
                  ljust channel_v 8))"

text \<open>The printed output is the list of the strings handed to \<open>print\<close>, in order.\<close>

fun print_rows :: "network list \<Rightarrow> string list \<Rightarrow> string list \<times> py_error option" where
  "print_rows [] out = (out, None)"
| "print_rows (net # rest) out =
     (case format_row net of
        Inl e \<Rightarrow> (out, Some e)
      | Inr row \<Rightarrow> print_rows rest (out @ [row]))"

text \<open>
  \<open>print_networks\<close> works on the list object it is given: \<open>networks.sort(key=...,
  reverse=True)\<close> reorders that object in place, keeping the order of equal keys. The
  result holds the content of the caller's list after the call, what was printed, and the
  exception raised, if any.
\<close>

record printed =
  networks_after :: "network list"
  printed_lines :: "string list"
  raised :: "py_error option"

definition print_networks :: "network list \<Rightarrow> printed" where
  "print_networks networks =
     (if networks = [] then
        \<lparr>networks_after = networks, printed_lines = [''No WiFi networks found.''], raised = None\<rparr>
      else
        let header = CHR 0x0A # ljust ''SSID'' 32 @ '' '' @ ljust ''BSSID'' 20 @ '' '' @
                     ljust ''Signal'' 8 @ '' '' @ ljust ''Channel'' 8;
            rule = replicate 70 (CHR ''-'');
            sorted_networks = sort_key (\<lambda>x. - signal_or_0 x) networks;
            rows = print_rows sorted_networks [header, rule]
        in case snd rows of
             Some e \<Rightarrow> \<lparr>networks_after = sorted_networks, printed_lines = fst rows, raised = Some e\<rparr>
           | None \<Rightarrow>
               \<lparr>networks_after = sorted_networks,
                 printed_lines = fst rows @
                   [CHR 0x0A # ''Total: '' @ str_int (int (length sorted_networks)) @
                    '' access point(s)''],
                 raised = None\<rparr>)"

section \<open>The JSON parser (get\_wifi\_bssids, wifi\_scanner\_termux.py)\<close>

text \<open>
  \<open>json.loads\<close> belongs to Python's library: the model takes what it returns on the
  standard output of the scan as an input, next to the outcome of the run.
\<close>

datatype loads_result =
    JSONDecodeError string
  | Loaded json

text \<open>
  What \<open>json.loads\<close> returns on the empty string, which holds no JSON value: it raises
  \<open>JSONDecodeError\<close> with this message.
\<close>

definition loads_of_empty_output :: loads_result where
  "loads_of_empty_output = JSONDecodeError ''Expecting value: line 1 column 1 (char 0)''"

text \<open>
  A Termux network always has its six keys. \<open>ssid\<close>, \<open>rssi_dbm\<close> and \<open>frequency_mhz\<close>
  hold whatever value the scan gave.
\<close>

record termux_network =
  t_ssid :: json
  t_bssid :: string
  t_signal :: int
  t_rssi_dbm :: json
  t_channel :: "int option"
  t_frequency_mhz :: json

text \<open>Truth value of a Python value, as \<open>or\<close> tests it.\<close>

fun truthy :: "json \<Rightarrow> bool" where
  "truthy JNull = False"
| "truthy (JBool b) = b"
| "truthy (JInt n) = (n \<noteq> 0)"
| "truthy (JStr s) = (s \<noteq> [])"
| "truthy (JArr xs) = (xs \<noteq> [])"
| "truthy (JObj kvs) = (kvs \<noteq> [])"

text \<open>
  A value compared and added as a number: an integer, or a \<open>bool\<close>, which is the integer
  0 or 1. Comparing any other value with an integer raises \<open>TypeError\<close>.
\<close>

fun as_number :: "json \<Rightarrow> py_error + int" where
  "as_number (JInt n) = Inr n"
| "as_number (JBool b) = Inr (if b then 1 else 0)"
| "as_number v = Inl TypeError"

text \<open>\<open>d.get(key, default)\<close> on the items of a \<open>dict\<close>.\<close>

definition dict_get :: "(string \<times> json) list \<Rightarrow> string \<Rightarrow> json \<Rightarrow> json" where
  "dict_get d k dflt = (case map_of d k of None \<Rightarrow> dflt | Some v \<Rightarrow> v)"

text \<open>
  The items \<open>for ap in scan_results\<close> runs over: the elements of a list, the keys of a
  \<open>dict\<close>, the characters of a string; the other values are not iterable.
\<close>

fun iterate :: "json \<Rightarrow> py_error + json list" where
  "iterate (JArr xs) = Inr xs"
| "iterate (JObj kvs) = Inr (map (\<lambda>kv. JStr (fst kv)) kvs)"
| "iterate (JStr s) = Inr (map (\<lambda>c. JStr [c]) s)"
| "iterate v = Inl TypeError"

text \<open>
  The body of the loop. \<open>ap.get\<close> exists on a \<open>dict\<close> only and \<open>.lower()\<close> on a string
  only: \<open>AttributeError\<close> otherwise. The entries are evaluated in the order of the
  source; \<open>ap.get(key)\<close> is \<open>ap.get(key, None)\<close>.
\<close>

definition termux_network_of :: "json \<Rightarrow> py_error + termux_network" where
  "termux_network_of ap =
     (case ap of
        JObj d \<Rightarrow>
          (let ssid_v = (if truthy (dict_get d ''ssid'' (JStr []))
                         then dict_get d ''ssid'' (JStr []) else JStr ''<Hidden>'')
           in case dict_get d ''bssid'' (JStr []) of
                JStr b \<Rightarrow>
                  (case as_number (dict_get d ''rssi'' (JInt (- 100))) of
                     Inl e \<Rightarrow> Inl e
                   | Inr rssi \<Rightarrow>
                       (case as_number (dict_get d ''frequency_mhz'' (JInt 0)) of
                          Inl e \<Rightarrow> Inl e
                        | Inr freq \<Rightarrow>
                            Inr \<lparr>t_ssid = ssid_v,
                                 t_bssid = lower b,
                                 t_signal = dbm_to_percent rssi,
                                 t_rssi_dbm = dict_get d ''rssi'' JNull,
                                 t_channel = freq_to_channel freq,
                                 t_frequency_mhz = dict_get d ''frequency_mhz'' JNull\<rparr>))
              | _ \<Rightarrow> Inl AttributeError)
      | _ \<Rightarrow> Inl AttributeError)"

fun termux_loop :: "json list \<Rightarrow> termux_network list \<Rightarrow> py_error + termux_network list" where
  "termux_loop [] networks = Inr networks"
| "termux_loop (ap # rest) networks =
     (case termux_network_of ap of
        Inl e \<Rightarrow> Inl e
      | Inr network \<Rightarrow> termux_loop rest (networks @ [network]))"

text \<open>
  \<open>get_wifi_bssids\<close> of the Termux scanner, given the outcome of the run and of
  \<open>json.loads\<close> on its standard output. \<open>TimeoutExpired\<close>, \<open>JSONDecodeError\<close> and
  \<open>FileNotFoundError\<close> become a \<open>RuntimeError\<close>; every other exception goes through.
\<close>

definition termux_get_wifi_bssids :: "run_result \<Rightarrow> loads_result \<Rightarrow> py_error + termux_network list" where
  "termux_get_wifi_bssids scan decoded =
     (case scan of
        Raised TimeoutExpired \<Rightarrow> Inl (RuntimeError ScanTimedOut)
      | Raised FileNotFoundError \<Rightarrow> Inl (RuntimeError ToolNotFound)
      | Raised e \<Rightarrow> Inl e
      | Completed rc out err \<Rightarrow>
          if rc \<noteq> 0 then Inl (RuntimeError (ScanFailed err))
          else
            (case decoded of
               JSONDecodeError msg \<Rightarrow> Inl (RuntimeError (ParseFailed msg))
             | Loaded scan_results \<Rightarrow>
                 (case (case scan_results of
                          JObj d \<Rightarrow> map_option TermuxAPIError (map_of d ''error'')
                        | _ \<Rightarrow> None) of
                    Some reason \<Rightarrow> Inl (RuntimeError reason)
                  | None \<Rightarrow>
                      (case iterate scan_results of
                         Inl e \<Rightarrow> Inl e
                       | Inr aps \<Rightarrow> termux_loop aps []))))"

section \<open>Properties of the normalizers\<close>

lemma int_quotient_nonneg: "0 \<le> x \<Longrightarrow> 0 < y \<Longrightarrow> int_quotient x y = x div y"
  by (cases "x = 0") (simp_all add: int_quotient_def)

lemma dbm_to_percent_mid:
  "- 90 < rssi \<Longrightarrow> rssi < - 30 \<Longrightarrow> dbm_to_percent rssi = (100 * (rssi + 90)) div 60"
  by (simp add: dbm_to_percent_def int_quotient_nonneg)

lemma div60_bounds:
  obtains q :: int where "x div 60 = q" and "60 * q \<le> x" and "x < 60 * q + 60"
proof -
  have "x = 60 * (x div 60) + x mod 60" by simp
  moreover have "0 \<le> x mod 60 \<and> x mod 60 < 60" by simp
  ultimately have "60 * (x div 60) \<le> x \<and> x < 60 * (x div 60) + 60" by linarith
  then show thesis using that by blast
qed

lemma dbm_to_percent_mid_bounds:
  assumes "- 90 < rssi" "rssi < - 30"
  shows "60 * dbm_to_percent rssi \<le> 100 * rssi + 9000"
    and "100 * rssi + 9000 < 60 * dbm_to_percent rssi + 60"
proof -
  obtain q where q: "(100 * (rssi + 90)) div 60 = q" "60 * q \<le> 100 * (rssi + 90)"
    "100 * (rssi + 90) < 60 * q + 60"
    by (rule div60_bounds)
  have e: "dbm_to_percent rssi = q"
    using assms q(1) by (simp add: dbm_to_percent_mid)
  show "60 * dbm_to_percent rssi \<le> 100 * rssi + 9000"
    unfolding e using q(2) by simp
  show "100 * rssi + 9000 < 60 * dbm_to_percent rssi + 60"
    unfolding e using q(3) by simp
qed

lemma dbm_to_percent_range: "0 \<le> dbm_to_percent rssi \<and> dbm_to_percent rssi \<le> 100"
proof (cases "- 90 < rssi \<and> rssi < - 30")
  case True
  then have r: "- 90 < rssi" "rssi < - 30"
    by simp_all
  note b = dbm_to_percent_mid_bounds [OF r]
  have "0 \<le> dbm_to_percent rssi"
    using r b by linarith
  moreover have "dbm_to_percent rssi \<le> 100"
    using r b by linarith
  ultimately show ?thesis by simp
next
  case False
  then show ?thesis by (auto simp: dbm_to_percent_def)
qed

lemma dbm_to_percent_strict_mono:
  assumes "- 90 < a" "a < b" "b < - 30"
  shows "dbm_to_percent a < dbm_to_percent b"
proof -
  have "60 * dbm_to_percent a \<le> 100 * a + 9000"
    using assms by (intro dbm_to_percent_mid_bounds) linarith+
  moreover have "100 * b + 9000 < 60 * dbm_to_percent b + 60"
    using assms by (intro dbm_to_percent_mid_bounds) linarith+
  ultimately show ?thesis
    using assms by linarith
qed

text \<open>
  C3. \<open>dbm_to_percent\<close> is 100 from -30 dBm up and 0 from -90 dBm down; strictly between
  the two it is \<open>100 * (rssi + 90) / 60\<close> cut to its integer part, it grows strictly with
  the input, every value lies between 0 and 100, and -60 dBm gives 50.
\<close>

theorem dbm_to_percent_contract:
  "(rssi \<ge> - 30 \<longrightarrow> dbm_to_percent rssi = 100) \<and>
   (rssi \<le> - 90 \<longrightarrow> dbm_to_percent rssi = 0) \<and>
   (- 90 < rssi \<and> rssi < - 30 \<longrightarrow>
      dbm_to_percent rssi = (100 * (rssi + 90)) div 60 \<and>
      60 * dbm_to_percent rssi \<le> 100 * (rssi + 90) \<and>
      100 * (rssi + 90) < 60 * (dbm_to_percent rssi + 1)) \<and>
   (\<forall>a b. - 90 < a \<and> a < b \<and> b < - 30 \<longrightarrow> dbm_to_percent a < dbm_to_percent b) \<and>
   0 \<le> dbm_to_percent rssi \<and> dbm_to_percent rssi \<le> 100 \<and>
   dbm_to_percent (- 60) = 50"
proof -
  have hi: "rssi \<ge> - 30 \<longrightarrow> dbm_to_percent rssi = 100"
    by (simp add: dbm_to_percent_def)
  have lo: "rssi \<le> - 90 \<longrightarrow> dbm_to_percent rssi = 0"
    by (simp add: dbm_to_percent_def)
  have mid: "- 90 < rssi \<and> rssi < - 30 \<longrightarrow>
      dbm_to_percent rssi = (100 * (rssi + 90)) div 60 \<and>
      60 * dbm_to_percent rssi \<le> 100 * (rssi + 90) \<and>
      100 * (rssi + 90) < 60 * (dbm_to_percent rssi + 1)"
  proof
    assume r: "- 90 < rssi \<and> rssi < - 30"
    then have e: "dbm_to_percent rssi = (100 * (rssi + 90)) div 60"
      by (simp add: dbm_to_percent_mid)
    show "dbm_to_percent rssi = (100 * (rssi + 90)) div 60 \<and>
      60 * dbm_to_percent rssi \<le> 100 * (rssi + 90) \<and>
      100 * (rssi + 90) < 60 * (dbm_to_percent rssi + 1)"
      using r e dbm_to_percent_mid_bounds [of rssi] by simp
  qed
  have mono: "\<forall>a b. - 90 < a \<and> a < b \<and> b < - 30 \<longrightarrow> dbm_to_percent a < dbm_to_percent b"
    by (simp add: dbm_to_percent_strict_mono)
  have at60: "dbm_to_percent (- 60) = 50"
    by (simp add: dbm_to_percent_mid)
  from hi lo mid mono dbm_to_percent_range at60 show ?thesis
    by blast
qed

theorem dbm_to_percent_contract_witness:
  "(- 20::int) \<ge> - 30 \<and> dbm_to_percent (- 20) = 100 \<and>
   (- 95::int) \<le> - 90 \<and> dbm_to_percent (- 95) = 0 \<and>
   (- 90::int) < - 45 \<and> (- 45::int) < - 30 \<and> dbm_to_percent (- 45) = 75 \<and>
   (- 90::int) < - 46 \<and> (- 46::int) < - 45 \<and> dbm_to_percent (- 46) < dbm_to_percent (- 45)"
proof -
  note c = dbm_to_percent_contract [of "- 45"]
  from c have "- 90 < (- 46::int) \<and> (- 46::int) < - 45 \<and> (- 45::int) < - 30 \<longrightarrow>
      dbm_to_percent (- 46) < dbm_to_percent (- 45)"
    by blast
  then show ?thesis
    using c dbm_to_percent_contract [of "- 20"] dbm_to_percent_contract [of "- 95"]
    by simp
qed

text \<open>
  C4. \<open>freq_to_channel\<close> on every integer: channel 14 at 2484 MHz and
  \<open>(freq - 2412) div 5 + 1\<close> elsewhere in 2412..2484, \<open>(freq - 5170) div 5 + 34\<close> in
  5170..5825, \<open>(freq - 5955) div 5 + 1\<close> in 5955..7115, and no channel outside the three
  bands; the function returns on every input. The six values the specification lists hold.
\<close>

theorem freq_to_channel_bands:
  "(2412 \<le> f \<and> f \<le> 2484 \<longrightarrow>
      freq_to_channel f = Some (if f = 2484 then 14 else (f - 2412) div 5 + 1)) \<and>
   (5170 \<le> f \<and> f \<le> 5825 \<longrightarrow> freq_to_channel f = Some ((f - 5170) div 5 + 34)) \<and>
   (5955 \<le> f \<and> f \<le> 7115 \<longrightarrow> freq_to_channel f = Some ((f - 5955) div 5 + 1)) \<and>
   (\<not> (2412 \<le> f \<and> f \<le> 2484) \<and> \<not> (5170 \<le> f \<and> f \<le> 5825) \<and> \<not> (5955 \<le> f \<and> f \<le> 7115) \<longrightarrow>
      freq_to_channel f = None) \<and>
   freq_to_channel 2412 = Some 1 \<and> freq_to_channel 2484 = Some 14 \<and>
   freq_to_channel 2485 = None \<and> freq_to_channel 5180 = Some 36 \<and>
   freq_to_channel 5955 = Some 1 \<and> freq_to_channel 3000 = None"
  by (simp add: freq_to_channel_def)

theorem freq_to_channel_bands_witness:
  "(2412::int) \<le> 2437 \<and> (2437::int) \<le> 2484 \<and> freq_to_channel 2437 = Some 6 \<and>
   (5170::int) \<le> 5500 \<and> (5500::int) \<le> 5825 \<and> freq_to_channel 5500 = Some 100 \<and>
   (5955::int) \<le> 6115 \<and> (6115::int) \<le> 7115 \<and> freq_to_channel 6115 = Some 33 \<and>
   \<not> ((2412::int) \<le> 5900 \<and> (5900::int) \<le> 2484) \<and> \<not> ((5170::int) \<le> 5900 \<and> (5900::int) \<le> 5825) \<and>
   \<not> ((5955::int) \<le> 5900 \<and> (5900::int) \<le> 7115) \<and> freq_to_channel 5900 = None"
  using freq_to_channel_bands [of 2437] freq_to_channel_bands [of 5500]
    freq_to_channel_bands [of 6115] freq_to_channel_bands [of 5900]
  by simp

lemma iwlist_dbm_signal_range: "0 \<le> iwlist_dbm_signal dbm \<and> iwlist_dbm_signal dbm \<le> 100"
  by (simp add: iwlist_dbm_signal_def)

text \<open>
  C2, as the specification states it, fails: at -60 dBm the iwlist parser stores 80,
  \<open>dbm_to_percent\<close> gives 50.
\<close>

theorem iwlist_dbm_differs_counterexample:
  "get_wifi_bssids_iwlist
     (Completed 0 (''Cell 01 - Address: AA:BB:CC:DD:EE:FF'' @ [CHR 0x0A] @
                   ''    Quality=50/70  Signal level=-60 dBm'') []) =
     Inr [\<lparr>ssid = None, bssid = Some ''aa:bb:cc:dd:ee:ff'', signal = Some (Some 80),
           channel = None\<rparr>] \<and>
   dbm_to_percent (- 60) = 50"
  by code_simp

text \<open>
  C2, amended. The iwlist parser maps a dBm level with \<open>max(0, min(100, 2 * (dbm + 100)))\<close>,
  a different line from \<open>dbm_to_percent\<close>: both stay between 0 and 100, and they give the
  same value exactly from -30 dBm up (both 100) and from -100 dBm down (both 0).
\<close>

theorem iwlist_dbm_signal_vs_dbm_to_percent:
  "(iwlist_dbm_signal dbm = dbm_to_percent dbm \<longleftrightarrow> dbm \<le> - 100 \<or> - 30 \<le> dbm) \<and>
   0 \<le> iwlist_dbm_signal dbm \<and> iwlist_dbm_signal dbm \<le> 100 \<and>
   0 \<le> dbm_to_percent dbm \<and> dbm_to_percent dbm \<le> 100"
proof -
  have "iwlist_dbm_signal dbm = dbm_to_percent dbm \<longleftrightarrow> dbm \<le> - 100 \<or> - 30 \<le> dbm"
  proof (cases "- 90 < dbm \<and> dbm < - 30")
    case True
    have b: "60 * dbm_to_percent dbm \<le> 100 * dbm + 9000"
      using True dbm_to_percent_mid_bounds [of dbm] by blast
    have "dbm_to_percent dbm < 2 * dbm + 200"
      using True b by linarith
    moreover have "dbm_to_percent dbm < 100"
      using True b by linarith
    moreover have "0 \<le> dbm_to_percent dbm"
      by (simp add: dbm_to_percent_range)
    ultimately have "dbm_to_percent dbm < iwlist_dbm_signal dbm"
      by (simp add: iwlist_dbm_signal_def)
    with True show ?thesis by simp
  next
    case False
    then show ?thesis
      by (auto simp: dbm_to_percent_def iwlist_dbm_signal_def)
  qed
  with iwlist_dbm_signal_range dbm_to_percent_range show ?thesis by blast
qed

theorem iwlist_dbm_signal_vs_dbm_to_percent_witness:
  "iwlist_dbm_signal (- 100) = dbm_to_percent (- 100) \<and>
   iwlist_dbm_signal (- 30) = dbm_to_percent (- 30) \<and>
   iwlist_dbm_signal (- 75) \<noteq> dbm_to_percent (- 75)"
  using iwlist_dbm_signal_vs_dbm_to_percent [of "- 100"]
    iwlist_dbm_signal_vs_dbm_to_percent [of "- 30"]
    iwlist_dbm_signal_vs_dbm_to_percent [of "- 75"]
  by simp

section \<open>What a match reads and captures\<close>

lemma lang_Star_Nil: "[] \<in> lang (Star a)"
proof -
  have "[] = concat ([] :: string list) \<and> set ([] :: string list) \<subseteq> lang a"
    by simp
  then show ?thesis
    unfolding lang.simps mem_Collect_eq by blast
qed

lemma lang_Star_Cons:
  assumes "u \<in> lang a" and "v \<in> lang (Star a)"
  shows "u @ v \<in> lang (Star a)"
proof -
  from assms(2) obtain ws where ws: "v = concat ws" "set ws \<subseteq> lang a"
    by auto
  with assms(1) have "u @ v = concat (u # ws) \<and> set (u # ws) \<subseteq> lang a"
    by simp
  then show ?thesis
    unfolding lang.simps mem_Collect_eq by blast
qed

lemma rmatch_Star_cases:
  assumes "(s', c') \<in> set (rmatch (Star a) s c)"
  obtains "(s', c') = (s, c)"
  | s1 c1 where "(s1, c1) \<in> set (rmatch a s c)" and "length s1 < length s"
      and "(s', c') \<in> set (rmatch (Star a) s1 c1)"
proof -
  have e: "rmatch (Star a) s c =
      concat (map (\<lambda>(s', c'). if length s' < length s then rmatch (Star a) s' c' else [])
                  (rmatch a s c)) @ [(s, c)]"
    by (rule rmatch.simps)
  from assms have "(s', c') = (s, c) \<or>
      (\<exists>s1 c1. (s1, c1) \<in> set (rmatch a s c) \<and> length s1 < length s \<and>
         (s', c') \<in> set (rmatch (Star a) s1 c1))"
    unfolding e by (auto simp del: rmatch.simps split: if_splits)
  then show thesis
    using that by blast
qed

lemma rmatch_reads:
  "(s', c') \<in> set (rmatch r s c) \<Longrightarrow> \<exists>w. s = w @ s' \<and> w \<in> lang r"
proof (induction r s c arbitrary: s' c' rule: rmatch.induct)
  case (1 s c)
  then show ?case by simp
next
  case (2 P s c)
  then show ?case by (cases s) (auto split: if_splits)
next
  case (3 a b s c)
  from "3.prems" obtain s1 c1 where m1: "(s1, c1) \<in> set (rmatch a s c)"
    and m2: "(s', c') \<in> set (rmatch b s1 c1)"
    by auto
  from "3.IH"(1) [OF m1] obtain u where u: "s = u @ s1" "u \<in> lang a" by blast
  from "3.IH"(2) [OF m1 refl m2] obtain v where v: "s1 = v @ s'" "v \<in> lang b" by blast
  from u v have "s = (u @ v) @ s'" "u @ v \<in> lang (Seq a b)" by auto
  then show ?case by blast
next
  case (4 a b s c)
  from "4.prems" have "(s', c') \<in> set (rmatch a s c) \<or> (s', c') \<in> set (rmatch b s c)"
    by simp
  then show ?case
  proof
    assume "(s', c') \<in> set (rmatch a s c)"
    from "4.IH"(1) [OF this] show ?thesis by auto
  next
    assume "(s', c') \<in> set (rmatch b s c)"
    from "4.IH"(2) [OF this] show ?thesis by auto
  qed
next
  case (5 a s c)
  from "5.prems" consider "(s', c') = (s, c)"
    | s1 c1 where "(s1, c1) \<in> set (rmatch a s c)" "length s1 < length s"
        "(s', c') \<in> set (rmatch (Star a) s1 c1)"
    by (rule rmatch_Star_cases)
  then show ?case
  proof cases
    case 1
    with lang_Star_Nil [of a] show ?thesis by auto
  next
    case 2
    from "5.IH"(1) [OF 2(1)] obtain u where u: "s = u @ s1" "u \<in> lang a" by blast
    from "5.IH"(2) [OF 2(1) refl 2(2) 2(3)] obtain v where v: "s1 = v @ s'" "v \<in> lang (Star a)"
      by blast
    have "u @ v \<in> lang (Star a)"
      using u(2) v(2) by (rule lang_Star_Cons)
    moreover have "s = (u @ v) @ s'"
      using u(1) v(1) by simp
    ultimately show ?thesis by blast
  qed
next
  case (6 i a s c)
  then show ?case by auto
qed

lemma rmatch_captures:
  "(s', c') \<in> set (rmatch r s c) \<Longrightarrow> map_of c' i = Some g \<Longrightarrow>
     map_of c i = Some g \<or> (\<exists>b \<in> bodies r i. g \<in> lang b)"
proof (induction r s c arbitrary: s' c' rule: rmatch.induct)
  case (1 s c)
  then show ?case by simp
next
  case (2 P s c)
  then show ?case by (cases s) (auto split: if_splits)
next
  case (3 a b s c)
  from "3.prems"(1) obtain s1 c1 where m1: "(s1, c1) \<in> set (rmatch a s c)"
    and m2: "(s', c') \<in> set (rmatch b s1 c1)"
    by auto
  from "3.IH"(2) [OF m1 refl m2 "3.prems"(2)]
  have "map_of c1 i = Some g \<or> (\<exists>b \<in> bodies b i. g \<in> lang b)" .
  then show ?case
  proof
    assume "map_of c1 i = Some g"
    from "3.IH"(1) [OF m1 this] show ?thesis by auto
  next
    assume "\<exists>b \<in> bodies b i. g \<in> lang b"
    then show ?thesis by auto
  qed
next
  case (4 a b s c)
  then show ?case by auto
next
  case (5 a s c)
  from "5.prems"(1) consider "(s', c') = (s, c)"
    | s1 c1 where "(s1, c1) \<in> set (rmatch a s c)" "length s1 < length s"
        "(s', c') \<in> set (rmatch (Star a) s1 c1)"
    by (rule rmatch_Star_cases)
  then show ?case
  proof cases
    case 1
    with "5.prems"(2) show ?thesis by simp
  next
    case 2
    from "5.IH"(2) [OF 2(1) refl 2(2) 2(3) "5.prems"(2)]
    have "map_of c1 i = Some g \<or> (\<exists>b \<in> bodies (Star a) i. g \<in> lang b)" .
    then show ?thesis
    proof
      assume "map_of c1 i = Some g"
      from "5.IH"(1) [OF 2(1) this] show ?thesis by auto
    next
      assume "\<exists>b \<in> bodies (Star a) i. g \<in> lang b"
      then show ?thesis by auto
    qed
  qed
next
  case (6 j a s c)
  from "6.prems"(1) obtain c1 where m: "(s', c1) \<in> set (rmatch a s c)"
    and c': "c' = (j, take (length s - length s') s) # c1"
    by auto
  show ?case
  proof (cases "i = j")
    case True
    from rmatch_reads [OF m] obtain w where w: "s = w @ s'" "w \<in> lang a" by blast
    then have "take (length s - length s') s = w" by simp
    with c' True "6.prems"(2) have "g = w" by simp
    with w True show ?thesis by auto
  next
    case False
    with c' "6.prems"(2) have "map_of c1 i = Some g" by simp
    from "6.IH" [OF m this] False show ?thesis by auto
  qed
qed

lemma rmatch_keeps:
  "(s', c') \<in> set (rmatch r s c) \<Longrightarrow> map_of c i \<noteq> None \<or> certain r i \<Longrightarrow> map_of c' i \<noteq> None"
proof (induction r s c arbitrary: s' c' rule: rmatch.induct)
  case (1 s c)
  then show ?case by simp
next
  case (2 P s c)
  then show ?case by (cases s) (auto split: if_splits)
next
  case (3 a b s c)
  from "3.prems"(1) obtain s1 c1 where m1: "(s1, c1) \<in> set (rmatch a s c)"
    and m2: "(s', c') \<in> set (rmatch b s1 c1)"
    by auto
  show ?case
  proof (cases "certain b i")
    case True
    from "3.IH"(2) [OF m1 refl m2] True show ?thesis by blast
  next
    case False
    with "3.prems"(2) have "map_of c i \<noteq> None \<or> certain a i" by simp
    from "3.IH"(1) [OF m1 this] have "map_of c1 i \<noteq> None" .
    with "3.IH"(2) [OF m1 refl m2] show ?thesis by blast
  qed
next
  case (4 a b s c)
  then show ?case by auto
next
  case (5 a s c)
  from "5.prems"(2) have k: "map_of c i \<noteq> None" by simp
  from "5.prems"(1) consider "(s', c') = (s, c)"
    | s1 c1 where "(s1, c1) \<in> set (rmatch a s c)" "length s1 < length s"
        "(s', c') \<in> set (rmatch (Star a) s1 c1)"
    by (rule rmatch_Star_cases)
  then show ?case
  proof cases
    case 1
    with k show ?thesis by simp
  next
    case 2
    from "5.IH"(1) [OF 2(1)] k have "map_of c1 i \<noteq> None" by blast
    with "5.IH"(2) [OF 2(1) refl 2(2) 2(3)] show ?thesis by blast
  qed
next
  case (6 j a s c)
  from "6.prems"(1) obtain c1 where m: "(s', c1) \<in> set (rmatch a s c)"
    and c': "c' = (j, take (length s - length s') s) # c1"
    by auto
  show ?case
  proof (cases "i = j")
    case True
    with c' show ?thesis by simp
  next
    case False
    with "6.prems"(2) have "map_of c i \<noteq> None \<or> certain a i" by simp
    from "6.IH" [OF m this] c' False show ?thesis by simp
  qed
qed

lemma re_search_rmatch:
  "re_search r s = Some m \<Longrightarrow> \<exists>s0 s'. (s', m) \<in> set (rmatch r s0 [])"
proof (induction s)
  case Nil
  then obtain p ps where "rmatch r [] [] = p # ps" "snd p = m"
    by (cases "rmatch r [] []") (auto split: prod.splits)
  then have "(fst p, m) \<in> set (rmatch r [] [])"
    by (cases p) simp
  then show ?case by blast
next
  case (Cons x xs)
  show ?case
  proof (cases "rmatch r (x # xs) []")
    case Nil
    with Cons show ?thesis by simp
  next
    case (Cons p ps)
    with Cons.prems have "(fst p, m) \<in> set (rmatch r (x # xs) [])"
      by (cases p) auto
    then show ?thesis by blast
  qed
qed

lemma re_search_group:
  assumes "re_search r s = Some m" and "certain r i"
  obtains g b where "group m i = Some g" and "b \<in> bodies r i" and "g \<in> lang b"
proof -
  from assms(1) obtain s0 s' where m: "(s', m) \<in> set (rmatch r s0 [])"
    using re_search_rmatch by blast
  from rmatch_keeps [OF m] assms(2) obtain g where g: "map_of m i = Some g"
    by blast
  from rmatch_captures [OF m g] obtain b where "b \<in> bodies r i" "g \<in> lang b"
    by auto
  with g that show thesis by (simp add: group_def)
qed

lemma lang_Star_Class:
  assumes "g \<in> lang (Star (Class P))"
  shows "list_all P g"
proof -
  from assms obtain ws where ws: "g = concat ws" "set ws \<subseteq> {[x] |x. P x}"
    by auto
  from ws(2) have "\<forall>w \<in> set ws. list_all P w"
    by auto
  then have "list_all P (concat ws)"
    by (induction ws) auto
  with ws(1) show ?thesis by simp
qed

lemma lang_Plus_Class:
  assumes "g \<in> lang (Plus (Class P))"
  shows "g \<noteq> [] \<and> list_all P g"
proof -
  from assms have "g \<in> {u @ v |u v. u \<in> lang (Class P) \<and> v \<in> lang (Star (Class P))}"
    unfolding Plus_def lang.simps(3) .
  then obtain u v where "g = u @ v" "u \<in> lang (Class P)" "v \<in> lang (Star (Class P))"
    by blast
  then obtain x where g: "g = [x] @ v" "P x" "v \<in> lang (Star (Class P))"
    by auto
  from g(3) have "list_all P v"
    by (rule lang_Star_Class)
  with g(1,2) show ?thesis by simp
qed

section \<open>Integers read from matched text\<close>

lemma decimal_not_space: "py_isdecimal c \<Longrightarrow> \<not> py_isspace c"
  by (auto simp: py_isdecimal_def py_isspace_def)

lemma digit_not_space: "py_isdigit c \<Longrightarrow> \<not> py_isspace c"
  by (auto simp: py_isdigit_def py_isdecimal_def py_isspace_def)

lemma decimal_not_sign:
  "py_isdecimal c \<Longrightarrow> c \<noteq> CHR ''-'' \<and> c \<noteq> CHR ''+'' \<and> c \<noteq> CHR ''_''"
  by (auto simp: py_isdecimal_def)

lemma digit_not_sign: "py_isdigit c \<Longrightarrow> c \<noteq> CHR ''-'' \<and> c \<noteq> CHR ''+''"
  by (auto simp: py_isdigit_def py_isdecimal_def)

lemma digit_val_nonneg: "py_isdecimal c \<Longrightarrow> 0 \<le> digit_val c"
  by (auto simp: py_isdecimal_def digit_val_def)

lemma strip_id:
  assumes "s \<noteq> []" and "\<not> py_isspace (hd s)" and "\<not> py_isspace (last s)"
  shows "strip s = s"
proof -
  from assms(1,2) have a: "dropWhile py_isspace s = s"
    by (cases s) simp_all
  from assms(1,3) have "dropWhile py_isspace (rev s) = rev s"
    by (cases "rev s") (simp_all add: hd_rev [symmetric] del: hd_rev)
  with a show ?thesis
    by (simp add: strip_def)
qed

lemma strip_all_nonspace:
  assumes "s \<noteq> []" and "list_all (\<lambda>c. \<not> py_isspace c) s"
  shows "strip s = s"
proof (rule strip_id)
  show "s \<noteq> []" by fact
  from assms show "\<not> py_isspace (hd s)"
    by (cases s) simp_all
  from assms have "last s \<in> set s" by simp
  with assms(2) show "\<not> py_isspace (last s)"
    by (simp add: list_all_iff)
qed

lemma digit_groups_chars:
  "digit_groups s \<Longrightarrow> list_all (\<lambda>c. py_isdecimal c \<or> c = CHR ''_'') s"
  by (induction s rule: digit_groups.induct) (auto split: if_splits)

lemma digit_groups_decimal:
  "s \<noteq> [] \<Longrightarrow> list_all py_isdecimal s \<Longrightarrow> digit_groups s"
  by (induction s rule: digit_groups.induct) (auto dest: decimal_not_sign)

lemma foldl_digits_nonneg:
  "0 \<le> acc \<Longrightarrow> list_all py_isdecimal s \<Longrightarrow> 0 \<le> foldl (\<lambda>acc c. 10 * acc + digit_val c) acc s"
proof (induction s arbitrary: acc)
  case Nil
  then show ?case by simp
next
  case (Cons c s)
  from Cons.prems have "0 \<le> 10 * acc + digit_val c"
    using digit_val_nonneg [of c] by simp
  with Cons show ?case by simp
qed

lemma digits_val_nonneg: "list_all py_isdecimal s \<Longrightarrow> 0 \<le> digits_val s"
  unfolding digits_val_def by (rule foldl_digits_nonneg) simp_all

lemma unsigned_int_nonneg:
  assumes "unsigned_int s = Some n"
  shows "0 \<le> n"
proof -
  from assms have g: "digit_groups s" and n: "n = digits_val (filter (\<lambda>c. c \<noteq> CHR ''_'') s)"
    by (auto simp: unsigned_int_def split: if_splits)
  from digit_groups_chars [OF g] have "list_all py_isdecimal (filter (\<lambda>c. c \<noteq> CHR ''_'') s)"
    by (auto simp: list_all_iff)
  then show ?thesis
    unfolding n by (rule digits_val_nonneg)
qed

lemma unsigned_int_decimal:
  assumes "s \<noteq> []" and "list_all py_isdecimal s"
  shows "unsigned_int s = Some (digits_val s)"
proof -
  from assms(2) have "filter (\<lambda>c. c \<noteq> CHR ''_'') s = s"
    by (auto simp: list_all_iff filter_id_conv dest: decimal_not_sign)
  with digit_groups_decimal [OF assms] show ?thesis
    by (simp add: unsigned_int_def)
qed

lemma py_int_decimal:
  assumes "s \<noteq> []" and "list_all py_isdecimal s"
  shows "py_int s = Some (digits_val s)"
proof -
  from assms(2) have "list_all (\<lambda>c. \<not> py_isspace c) s"
    by (auto simp: list_all_iff dest: decimal_not_space)
  with assms(1) have st: "strip s = s"
    by (rule strip_all_nonspace)
  from assms obtain c cs where s: "s = c # cs" and c: "py_isdecimal c"
    by (cases s) auto
  from c have "c \<noteq> CHR ''-''" "c \<noteq> CHR ''+''"
    using decimal_not_sign by blast+
  with st s unsigned_int_decimal [OF assms] show ?thesis
    by (simp add: py_int_def)
qed

lemma py_int_minus_decimal:
  assumes "s \<noteq> []" and "list_all py_isdecimal s"
  shows "py_int (CHR ''-'' # s) = Some (- digits_val s)"
proof -
  have "\<not> py_isspace (CHR ''-'')"
    by (simp add: py_isspace_def)
  with assms(2) have "list_all (\<lambda>c. \<not> py_isspace c) (CHR ''-'' # s)"
    by (auto simp: list_all_iff dest: decimal_not_space)
  then have "strip (CHR ''-'' # s) = CHR ''-'' # s"
    by (intro strip_all_nonspace) simp_all
  with unsigned_int_decimal [OF assms] show ?thesis
    by (simp add: py_int_def)
qed

lemma py_int_isdigit_nonneg:
  assumes "isdigit s" and "py_int s = Some n"
  shows "0 \<le> n"
proof -
  from assms(1) have ne: "s \<noteq> []" and d: "list_all py_isdigit s"
    by (simp_all add: isdigit_def)
  from d have "list_all (\<lambda>c. \<not> py_isspace c) s"
    by (auto simp: list_all_iff dest: digit_not_space)
  with ne have st: "strip s = s"
    by (rule strip_all_nonspace)
  from ne d obtain c cs where s: "s = c # cs" and c: "py_isdigit c"
    by (cases s) auto
  from c have "c \<noteq> CHR ''-''" "c \<noteq> CHR ''+''"
    using digit_not_sign by blast+
  with st s assms(2) have "unsigned_int s = Some n"
    by (simp add: py_int_def)
  then show ?thesis
    by (rule unsigned_int_nonneg)
qed

section \<open>What the patterns of the parsers capture\<close>

lemma re_search_digits:
  assumes "re_search r s = Some m" and "certain r i" and "bodies r i = {Plus (Class py_isdecimal)}"
  obtains n where "int_group m i = Inr n" and "0 \<le> n"
proof -
  from re_search_group [OF assms(1,2)] obtain g b
    where g: "group m i = Some g" "b \<in> bodies r i" "g \<in> lang b"
    by blast
  with assms(3) have "g \<in> lang (Plus (Class py_isdecimal))"
    by simp
  then have d: "g \<noteq> []" "list_all py_isdecimal g"
    using lang_Plus_Class by blast+
  then have "py_int g = Some (digits_val g)" and "0 \<le> digits_val g"
    by (simp_all add: py_int_decimal digits_val_nonneg)
  with g(1) have "int_group m i = Inr (digits_val g)" "0 \<le> digits_val g"
    by (simp_all add: int_group_def)
  then show thesis by (rule that)
qed

lemma re_search_nonempty:
  assumes "re_search r s = Some m" and "certain r i" and "bodies r i = {Plus (Class P)}"
  obtains g where "str_group m i = Inr g" and "g \<noteq> []"
proof -
  from re_search_group [OF assms(1,2)] obtain g b
    where g: "group m i = Some g" "b \<in> bodies r i" "g \<in> lang b"
    by blast
  with assms(3) have "g \<in> lang (Plus (Class P))"
    by simp
  then have "g \<noteq> []"
    using lang_Plus_Class by blast
  with g(1) have "str_group m i = Inr g" "g \<noteq> []"
    by (simp_all add: str_group_def)
  then show thesis by (rule that)
qed

lemmas re_defs =
  Seqs_def Lits_def Lit_def Plus_def Opt_def re_space_def re_digit_def re_hexcolon_def
  re_notquote_def re_dot_def

lemma re_channel_int:
  assumes "re_search re_channel s = Some m"
  obtains n where "int_group m 1 = Inr n" and "0 \<le> n"
proof (rule re_search_digits [OF assms])
  show "certain re_channel 1"
    by (simp add: re_channel_def re_defs)
  show "bodies re_channel 1 = {Plus (Class py_isdecimal)}"
    by (simp add: re_channel_def re_defs)
qed



lemma re_signal_ratio_int1:
  assumes "re_search re_signal_ratio s = Some m"
  obtains n where "int_group m 1 = Inr n" and "0 \<le> n"
proof (rule re_search_digits [OF assms])
  show "certain re_signal_ratio 1"
    by (simp add: re_signal_ratio_def re_defs)
  show "bodies re_signal_ratio 1 = {Plus (Class py_isdecimal)}"
    by (simp add: re_signal_ratio_def re_defs)
qed

lemma re_signal_ratio_int2:
  assumes "re_search re_signal_ratio s = Some m"
  obtains n where "int_group m 2 = Inr n" and "0 \<le> n"
proof (rule re_search_digits [OF assms])
  show "certain re_signal_ratio 2"
    by (simp add: re_signal_ratio_def re_defs)
  show "bodies re_signal_ratio 2 = {Plus (Class py_isdecimal)}"
    by (simp add: re_signal_ratio_def re_defs)
qed

lemma re_signal_dbm_int:
  assumes "re_search re_signal_dbm s = Some m"
  obtains n where "int_group m 1 = Inr n"
proof -
  have "certain re_signal_dbm 1"
    by (simp add: re_signal_dbm_def re_defs)
  from re_search_group [OF assms this] obtain g b
    where g: "group m 1 = Some g" "b \<in> bodies re_signal_dbm 1" "g \<in> lang b"
    by blast
  have "bodies re_signal_dbm 1 =
      {Seq (Alt (Class (\<lambda>x. x = CHR ''-'')) Eps) (Plus (Class py_isdecimal))}"
    by (simp add: re_signal_dbm_def re_defs)
  with g(2,3) have "g \<in> lang (Seq (Alt (Class (\<lambda>x. x = CHR ''-'')) Eps) (Plus (Class py_isdecimal)))"
    by simp
  then obtain u d where ud: "g = u @ d" "u = [CHR ''-''] \<or> u = []"
      "d \<in> lang (Plus (Class py_isdecimal))"
    unfolding lang.simps(3) by auto
  from ud(3) have d: "d \<noteq> []" "list_all py_isdecimal d"
    using lang_Plus_Class by blast+
  from ud(1,2) d have "\<exists>n. py_int g = Some n"
    by (auto simp: py_int_decimal py_int_minus_decimal)
  with g(1) have "\<exists>n. int_group m 1 = Inr n"
    by (auto simp: int_group_def)
  then show thesis using that by blast
qed

lemma re_address_str:
  assumes "re_search re_address s = Some m"
  obtains g where "str_group m 1 = Inr g" and "g \<noteq> []"
proof (rule re_search_nonempty [OF assms])
  show "certain re_address 1"
    by (simp add: re_address_def re_defs)
  show "bodies re_address 1 = {Plus (Class (\<lambda>c. c \<in> set ''0123456789ABCDEFabcdef:''))}"
    by (simp add: re_address_def re_defs)
qed



lemma lower_nonempty: "g \<noteq> [] \<Longrightarrow> lower g \<noteq> []"
  by (simp add: lower_def)

section \<open>Loops over lines\<close>

lemma for_lines_invariant:
  assumes "for_lines body st ls = Inr st'" and "P st"
    and "\<And>s l s'. P s \<Longrightarrow> body s l = Inr s' \<Longrightarrow> P s'"
  shows "P st'"
  using assms(1,2)
proof (induction ls arbitrary: st)
  case Nil
  then show ?case by simp
next
  case (Cons l ls)
  from Cons.prems(1) obtain s1 where s1: "body st l = Inr s1" "for_lines body s1 ls = Inr st'"
    by (auto split: sum.splits)
  from assms(3) [OF Cons.prems(2) s1(1)] have "P s1" .
  with Cons.IH s1(2) show ?case by blast
qed



section \<open>The netsh parser, line by line\<close>


text \<open>
  What one line can do to the state: leave the list and the identity of the accumulator
  alone, write to an accumulator that holds no BSSID, or append the accumulator, which then
  holds one.
\<close>

lemma netsh_line_cases:
  assumes "netsh_line (nets, cur) raw = Inr (nets', cur')"
  shows "(nets' = nets \<and> bssid cur' = bssid cur \<and> ssid cur' = ssid cur) \<or>
         (nets' = nets \<and> \<not> has_bssid cur) \<or>
         (nets' = nets @ [cur] \<and> has_bssid cur)"
  using assms unfolding netsh_line_def Let_def
  by (auto split: if_splits option.splits sum.splits)


section \<open>The cell-block parser, line by line\<close>

lemma iwlist_line_cases:
  assumes "iwlist_line (nets, cur) raw = Inr (nets', cur')"
  shows "nets' = nets \<or> (nets' = nets @ [cur] \<and> has_bssid cur)"
  using assms unfolding iwlist_line_def Let_def
  by (auto split: if_splits option.splits sum.splits)

lemma iwlist_line_cell:
  assumes "startswith (strip raw) ''Cell''"
  shows "\<exists>cur'. iwlist_line (nets, cur) raw =
             Inr (if has_bssid cur then nets @ [cur] else nets, cur') \<and>
           ssid cur' = None \<and> signal cur' = None \<and> channel cur' = None \<and>
           (bssid cur' = None \<or> has_bssid cur')"
proof (cases "re_search re_address (strip raw)")
  case None
  with assms show ?thesis
    unfolding iwlist_line_def Let_def by (simp add: empty_network_def)
next
  case (Some m)
  then obtain g where "str_group m 1 = Inr g" "g \<noteq> []"
    by (auto elim: re_address_str)
  with assms Some show ?thesis
    unfolding iwlist_line_def Let_def
    by (simp add: empty_network_def has_bssid_def lower_nonempty)
qed

lemma int_quotient_nonneg_result: "0 \<le> a \<Longrightarrow> 0 \<le> b \<Longrightarrow> b \<noteq> 0 \<Longrightarrow> 0 \<le> int_quotient (100 * a) b"
  by (simp add: int_quotient_nonneg pos_imp_zdiv_nonneg_iff)

lemma iwlist_line_signal:
  assumes "iwlist_line (nets, cur) raw = Inr (nets', cur')"
    and "\<forall>v. get_signal cur = Some v \<longrightarrow> 0 \<le> v"
  shows "\<forall>v. get_signal cur' = Some v \<longrightarrow> 0 \<le> v"
proof -
  define line where "line = strip raw"
  note unfold = iwlist_line_def Let_def line_def [symmetric]
  show ?thesis
  proof (cases "startswith line ''Cell''")
    case True
    with iwlist_line_cell [of raw nets cur] assms(1) have "signal cur' = None"
      by (auto simp: line_def)
    then show ?thesis by (simp add: get_signal_def)
  next
    case no_cell: False
    show ?thesis
    proof (cases "contains line ''Channel:''")
      case True
      with no_cell assms show ?thesis
        unfolding unfold
        by (auto simp: get_signal_def split: option.splits sum.splits)
    next
      case no_channel: False
      show ?thesis
      proof (cases "contains line ''Signal level''")
        case True
        show ?thesis
        proof (cases "re_search re_signal_dbm line")
          case (Some m)
          with no_cell no_channel True assms(1)
          obtain dbm where "cur' = cur\<lparr>signal := Some (Some (iwlist_dbm_signal dbm))\<rparr>"
            unfolding unfold by (auto split: sum.splits)
          then show ?thesis
            by (simp add: get_signal_def iwlist_dbm_signal_def)
        next
          case None
          show ?thesis
          proof (cases "re_search re_signal_ratio line")
            case no_ratio: None
            with None no_cell no_channel True assms show ?thesis
              unfolding unfold by simp
          next
            case (Some m)
            obtain a where a: "int_group m 1 = Inr a" "0 \<le> a"
              using Some by (rule re_signal_ratio_int1)
            obtain b where b: "int_group m 2 = Inr b" "0 \<le> b"
              using Some by (rule re_signal_ratio_int2)
            from None Some no_cell no_channel True assms(1) a(1) b(1)
            have "b \<noteq> 0 \<and> cur' = cur\<lparr>signal := Some (Some (int_quotient (100 * a) b))\<rparr>"
              unfolding unfold by (simp split: if_splits)
            with a(2) b(2) show ?thesis
              by (simp add: get_signal_def int_quotient_nonneg_result)
          qed
        qed
      next
        case no_signal: False
        with no_cell no_channel assms show ?thesis
          unfolding unfold
          by (auto simp: get_signal_def split: if_splits option.splits)
      qed
    qed
  qed
qed

section \<open>The terse parser, line by line\<close>

lemma int_if_isdigit_nonneg: "int_if_isdigit field = Inr (Some v) \<Longrightarrow> 0 \<le> v"
  by (auto simp: int_if_isdigit_def py_int_isdigit_nonneg split: if_splits option.splits)

lemma nmcli_line_cases:
  assumes "nmcli_line nets line = Inr nets'"
  shows "nets' = nets \<or>
         (\<exists>n. nets' = nets @ [n] \<and> ssid n \<noteq> None \<and> bssid n \<noteq> None \<and> signal n \<noteq> None \<and>
              channel n \<noteq> None \<and> (\<forall>v. get_signal n = Some v \<longrightarrow> 0 \<le> v))"
  using assms unfolding nmcli_line_def Let_def
  by (auto simp: get_signal_def dest: int_if_isdigit_nonneg split: if_splits sum.splits)

section \<open>The JSON parser, element by element\<close>

lemma termux_network_of_signal:
  assumes "termux_network_of ap = Inr n"
  shows "0 \<le> t_signal n \<and> t_signal n \<le> 100"
proof -
  from assms obtain rssi where "t_signal n = dbm_to_percent rssi"
    unfolding termux_network_of_def Let_def
    by (auto split: json.splits sum.splits)
  with dbm_to_percent_range [of rssi] show ?thesis by simp
qed

lemma termux_loop_all:
  assumes "termux_loop aps acc = Inr nets"
    and "\<forall>n \<in> set acc. P n"
    and "\<And>ap n. termux_network_of ap = Inr n \<Longrightarrow> P n"
  shows "\<forall>n \<in> set nets. P n"
  using assms(1,2)
proof (induction aps arbitrary: acc)
  case Nil
  then show ?case by simp
next
  case (Cons ap aps)
  from Cons.prems(1) obtain n where n: "termux_network_of ap = Inr n"
    and rest: "termux_loop aps (acc @ [n]) = Inr nets"
    by (auto split: sum.splits)
  from assms(3) [OF n] Cons.prems(2) have "\<forall>x \<in> set (acc @ [n]). P x"
    by simp
  with Cons.IH rest show ?case by blast
qed

lemma termux_loop_length:
  "termux_loop aps acc = Inr nets \<Longrightarrow> length nets = length acc + length aps"
  by (induction aps arbitrary: acc) (auto split: sum.splits)

section \<open>The presenter and the caller's list\<close>

lemma networks_after_print_networks:
  "networks_after (print_networks ns) = sort_key (\<lambda>x. - signal_or_0 x) ns"
  by (cases ns) (simp_all add: print_networks_def Let_def split: option.splits)

text \<open>
  C1, as the specification states it, fails: given a list with the weaker network first,
  \<open>print_networks\<close> leaves the caller's list in the other order.
\<close>

theorem print_networks_reorders_counterexample:
  "networks_after (print_networks
     [\<lparr>ssid = Some ''Cafe'', bssid = Some ''aa:bb:cc:dd:ee:01'', signal = Some (Some 40),
        channel = Some (Some 6)\<rparr>,
      \<lparr>ssid = Some ''Home'', bssid = Some ''aa:bb:cc:dd:ee:02'', signal = Some (Some 80),
        channel = Some (Some 11)\<rparr>]) =
     [\<lparr>ssid = Some ''Home'', bssid = Some ''aa:bb:cc:dd:ee:02'', signal = Some (Some 80),
        channel = Some (Some 11)\<rparr>,
      \<lparr>ssid = Some ''Cafe'', bssid = Some ''aa:bb:cc:dd:ee:01'', signal = Some (Some 40),
        channel = Some (Some 6)\<rparr>]"
  by (simp add: networks_after_print_networks signal_or_0_def get_signal_def)

text \<open>
  C1, amended. \<open>print_networks\<close> sorts the list it is given in place: after the call the
  caller's list holds the same records, ordered by descending signal with an absent
  signal counted as 0 and records of equal signal in their previous order. The list is
  unchanged exactly when it was in that order before the call.
\<close>

theorem print_networks_sorts_in_place:
  "mset (networks_after (print_networks ns)) = mset ns \<and>
   sorted_wrt (\<lambda>a b. signal_or_0 b \<le> signal_or_0 a) (networks_after (print_networks ns)) \<and>
   (\<forall>k. filter (\<lambda>x. signal_or_0 x = k) (networks_after (print_networks ns)) =
        filter (\<lambda>x. signal_or_0 x = k) ns) \<and>
   (networks_after (print_networks ns) = ns \<longleftrightarrow>
      sorted_wrt (\<lambda>a b. signal_or_0 b \<le> signal_or_0 a) ns)"
proof -
  let ?key = "\<lambda>x. - signal_or_0 x"
  let ?after = "networks_after (print_networks ns)"
  have after: "?after = sort_key ?key ns"
    by (rule networks_after_print_networks)
  have desc: "sorted_wrt (\<lambda>a b. signal_or_0 b \<le> signal_or_0 a) xs \<longleftrightarrow> sorted (map ?key xs)"
    for xs :: "network list"
    by (simp add: sorted_map)
  have perm: "mset ?after = mset ns"
    unfolding after by simp
  have ordered: "sorted_wrt (\<lambda>a b. signal_or_0 b \<le> signal_or_0 a) ?after"
    unfolding after desc by (rule sorted_sort_key)
  have stable: "filter (\<lambda>x. signal_or_0 x = k) ?after = filter (\<lambda>x. signal_or_0 x = k) ns" for k
  proof -
    have "filter (\<lambda>x. ?key x = - k) (sort_key ?key ns) = filter (\<lambda>x. ?key x = - k) ns"
      by (rule sort_key_stable)
    then show ?thesis
      unfolding after by simp
  qed
  have same: "?after = ns \<longleftrightarrow> sorted_wrt (\<lambda>a b. signal_or_0 b \<le> signal_or_0 a) ns"
  proof
    assume "?after = ns"
    with ordered show "sorted_wrt (\<lambda>a b. signal_or_0 b \<le> signal_or_0 a) ns"
      by simp
  next
    assume "sorted_wrt (\<lambda>a b. signal_or_0 b \<le> signal_or_0 a) ns"
    then have "sorted (map ?key ns)"
      unfolding desc .
    then show "?after = ns"
      unfolding after by (rule sort_key_id_if_sorted)
  qed
  from perm ordered stable same show ?thesis
    by blast
qed

theorem print_networks_sorts_in_place_witness:
  "networks_after (print_networks
     [\<lparr>ssid = Some ''Home'', bssid = Some ''aa:bb:cc:dd:ee:02'', signal = Some (Some 80),
        channel = Some (Some 11)\<rparr>,
      \<lparr>ssid = Some ''Cafe'', bssid = Some ''aa:bb:cc:dd:ee:01'', signal = None,
        channel = None\<rparr>]) =
     [\<lparr>ssid = Some ''Home'', bssid = Some ''aa:bb:cc:dd:ee:02'', signal = Some (Some 80),
        channel = Some (Some 11)\<rparr>,
      \<lparr>ssid = Some ''Cafe'', bssid = Some ''aa:bb:cc:dd:ee:01'', signal = None,
        channel = None\<rparr>]"
  using print_networks_sorts_in_place
    [of "[\<lparr>ssid = Some ''Home'', bssid = Some ''aa:bb:cc:dd:ee:02'', signal = Some (Some 80),
            channel = Some (Some 11)\<rparr>,
          \<lparr>ssid = Some ''Cafe'', bssid = Some ''aa:bb:cc:dd:ee:01'', signal = None,
            channel = None\<rparr>]"]
  by (simp add: signal_or_0_def get_signal_def)

section \<open>The JSON parser on objects and on empty output\<close>

text \<open>
  C7, as the specification states it, fails: the empty object \<open>{}\<close> has no \<open>error\<close> entry
  and nothing to iterate over, and the parser returns an empty list.
\<close>

theorem termux_empty_object_counterexample:
  "termux_get_wifi_bssids (Completed 0 ''{}'' []) (Loaded (JObj [])) = Inr []"
  by (simp add: termux_get_wifi_bssids_def)

text \<open>
  C7, amended. A top-level JSON object with an \<open>error\<close> entry is raised as the scan-level
  failure \<open>RuntimeError('Termux API error: ...')\<close>, as for \<open>{"error": "permission denied"}\<close>.
  An object without that entry is iterated over by its keys: the empty object yields an
  empty list and every other one raises \<open>AttributeError\<close>. No object yields a list with
  a record in it.
\<close>

theorem termux_object_result:
  "termux_get_wifi_bssids (Completed 0 out err) (Loaded (JObj d)) =
     (case map_of d ''error'' of
        Some v \<Rightarrow> Inl (RuntimeError (TermuxAPIError v))
      | None \<Rightarrow> if d = [] then Inr [] else Inl AttributeError) \<and>
   termux_get_wifi_bssids (Completed 0 out err)
     (Loaded (JObj [(''error'', JStr ''permission denied'')])) =
     Inl (RuntimeError (TermuxAPIError (JStr ''permission denied'')))"
proof -
  have "termux_get_wifi_bssids (Completed 0 out err) (Loaded (JObj d)) =
     (case map_of d ''error'' of
        Some v \<Rightarrow> Inl (RuntimeError (TermuxAPIError v))
      | None \<Rightarrow> if d = [] then Inr [] else Inl AttributeError)"
  proof (cases "map_of d ''error''")
    case (Some v)
    then show ?thesis
      by (simp add: termux_get_wifi_bssids_def)
  next
    case None
    then show ?thesis
      by (cases d) (simp_all add: termux_get_wifi_bssids_def termux_network_of_def)
  qed
  moreover have "termux_get_wifi_bssids (Completed 0 out err)
     (Loaded (JObj [(''error'', JStr ''permission denied'')])) =
     Inl (RuntimeError (TermuxAPIError (JStr ''permission denied'')))"
    by (simp add: termux_get_wifi_bssids_def)
  ultimately show ?thesis by blast
qed

text \<open>
  C10, as the specification states it, fails for the JSON parser: on empty output
  \<open>json.loads\<close> raises \<open>JSONDecodeError\<close>, which the parser turns into the scan-level
  failure \<open>RuntimeError('Failed to parse scan results: ...')\<close>.
\<close>

theorem termux_empty_output_counterexample:
  "termux_get_wifi_bssids (Completed 0 [] []) loads_of_empty_output =
     Inl (RuntimeError (ParseFailed ''Expecting value: line 1 column 1 (char 0)''))"
  by (simp add: termux_get_wifi_bssids_def loads_of_empty_output_def)

text \<open>
  C10, amended. Empty output of the tool yields an empty list, and no failure, in the
  terse parser and in both multi-line parsers. The JSON parser yields an empty list for
  an empty JSON array; output that \<open>json.loads\<close> cannot decode, such as the empty string,
  is raised as the scan-level \<open>RuntimeError\<close>.
\<close>

theorem empty_output_results:
  "get_wifi_bssids_nmcli (Completed rc out err) (Completed 0 [] err') = Inr [] \<and>
   get_wifi_bssids_iwlist (Completed 0 [] err) = Inr [] \<and>
   windows_get_wifi_bssids (Completed 0 [] err) = Inr [] \<and>
   termux_get_wifi_bssids (Completed 0 out err) (Loaded (JArr [])) = Inr [] \<and>
   termux_get_wifi_bssids (Completed 0 out err) (JSONDecodeError msg) =
     Inl (RuntimeError (ParseFailed msg))"
  by (simp add: get_wifi_bssids_nmcli_def get_wifi_bssids_iwlist_def
      windows_get_wifi_bssids_def termux_get_wifi_bssids_def checked_stdout_def
      splitlines_def flush_def has_bssid_def empty_network_def)

section \<open>The terse parser on escaped colons and on fields that are not numbers\<close>

text \<open>The line of the specification's example, read as the specification says.\<close>

lemma nmcli_escaped_colon_example:
  "get_wifi_bssids_nmcli (Completed 0 [] [])
     (Completed 0
        (''MyNet'' @ [CHR 0x5C] @ '':Work:aa'' @ [CHR 0x5C] @ '':bb'' @ [CHR 0x5C] @ '':cc'' @
         [CHR 0x5C] @ '':dd'' @ [CHR 0x5C] @ '':ee'' @ [CHR 0x5C] @ '':ff:80:6'') []) =
     Inr [\<lparr>ssid = Some ''MyNet:Work'', bssid = Some ''aa:bb:cc:dd:ee:ff'',
           signal = Some (Some 80), channel = Some (Some 6)\<rparr>]"
  by code_simp

text \<open>A field that \<open>str.isdigit\<close> rejects becomes \<open>None\<close>, whatever the other field holds.\<close>

lemma int_if_isdigit_not_digits: "\<not> isdigit field \<Longrightarrow> int_if_isdigit field = Inr None"
  by (simp add: int_if_isdigit_def)

lemma int_if_isdigit_decimal:
  "field \<noteq> [] \<Longrightarrow> list_all py_isdecimal field \<Longrightarrow>
     int_if_isdigit field = Inr (Some (digits_val field))"
  by (auto simp: int_if_isdigit_def isdigit_def py_isdigit_def py_int_decimal list_all_iff)

text \<open>
  C5. The escaped colons of the example are read as the claim says, and a field without
  digit characters becomes absent. A field of digit characters that are not decimal digits
  is not covered by the guard: \<open>'\<twosuperior>'.isdigit()\<close> holds, \<open>int('\<twosuperior>')\<close> raises
  \<open>ValueError\<close>, and the scan fails as a whole instead of giving a record with an absent
  signal.
\<close>

theorem nmcli_superscript_digit_raises:
  "isdigit [CHR 0xB2] \<and> py_int [CHR 0xB2] = None \<and>
   get_wifi_bssids_nmcli (Completed 0 [] [])
     (Completed 0
        (''Cafe:aa'' @ [CHR 0x5C] @ '':bb'' @ [CHR 0x5C] @ '':cc'' @ [CHR 0x5C] @ '':dd'' @
         [CHR 0x5C] @ '':ee'' @ [CHR 0x5C] @ '':ff:'' @ [CHR 0xB2] @ '':6'') []) =
     Inl ValueError"
  by code_simp

section \<open>Signal range and BSSID of the records\<close>

lemma checked_stdout_Inr:
  "checked_stdout scan = Inr out \<Longrightarrow> \<exists>err. scan = Completed 0 out err"
  by (auto simp: checked_stdout_def split: run_result.splits if_splits)

lemma nmcli_records:
  assumes "get_wifi_bssids_nmcli rescan listing = Inr nets"
  shows "\<forall>n \<in> set nets. bssid n \<noteq> None \<and> (\<forall>v. get_signal n = Some v \<longrightarrow> 0 \<le> v)"
proof -
  from assms obtain out where "for_lines nmcli_line [] (splitlines out) = Inr nets"
    unfolding get_wifi_bssids_nmcli_def by (auto split: option.splits sum.splits)
  then show ?thesis
  proof (rule for_lines_invariant)
    show "\<forall>n \<in> set []. bssid n \<noteq> None \<and> (\<forall>v. get_signal n = Some v \<longrightarrow> 0 \<le> v)"
      by simp
  next
    fix s l s'
    assume "\<forall>n \<in> set s. bssid n \<noteq> None \<and> (\<forall>v. get_signal n = Some v \<longrightarrow> 0 \<le> v)"
      and "nmcli_line s l = Inr s'"
    with nmcli_line_cases [of s l s']
    show "\<forall>n \<in> set s'. bssid n \<noteq> None \<and> (\<forall>v. get_signal n = Some v \<longrightarrow> 0 \<le> v)"
      by auto
  qed
qed

lemma iwlist_records:
  assumes "get_wifi_bssids_iwlist scan = Inr nets"
  shows "\<forall>n \<in> set nets. has_bssid n \<and> (\<forall>v. get_signal n = Some v \<longrightarrow> 0 \<le> v)"
proof -
  let ?ok = "\<lambda>n. has_bssid n \<and> (\<forall>v. get_signal n = Some v \<longrightarrow> 0 \<le> v)"
  let ?inv = "\<lambda>st. (\<forall>n \<in> set (fst st). ?ok n) \<and> (\<forall>v. get_signal (snd st) = Some v \<longrightarrow> 0 \<le> v)"
  from assms obtain out st where run: "for_lines iwlist_line ([], empty_network) (splitlines out) = Inr st"
    and nets: "nets = flush st"
    unfolding get_wifi_bssids_iwlist_def by (auto split: sum.splits)
  from run have "?inv st"
  proof (rule for_lines_invariant)
    show "?inv ([], empty_network)"
      by (simp add: empty_network_def get_signal_def)
  next
    fix s l s'
    assume inv: "?inv s" and step: "iwlist_line s l = Inr s'"
    obtain ns cur where s: "s = (ns, cur)" by (cases s)
    obtain ns' cur' where s': "s' = (ns', cur')" by (cases s')
    from step have c: "ns' = ns \<or> (ns' = ns @ [cur] \<and> has_bssid cur)"
      unfolding s s' by (rule iwlist_line_cases)
    from step inv have "\<forall>v. get_signal cur' = Some v \<longrightarrow> 0 \<le> v"
      unfolding s s' by (intro iwlist_line_signal [of ns cur l ns' cur']) simp_all
    with inv c show "?inv s'"
      unfolding s s' by auto
  qed
  then show ?thesis
    unfolding nets flush_def by auto
qed

lemma netsh_records:
  assumes "windows_get_wifi_bssids scan = Inr nets"
  shows "\<forall>n \<in> set nets. has_bssid n"
proof -
  from assms obtain out st where run: "for_lines netsh_line ([], empty_network) (splitlines out) = Inr st"
    and nets: "nets = flush st"
    unfolding windows_get_wifi_bssids_def by (auto split: sum.splits)
  from run have "\<forall>n \<in> set (fst st). has_bssid n"
  proof (rule for_lines_invariant)
    show "\<forall>n \<in> set (fst ([], empty_network)). has_bssid n"
      by simp
  next
    fix s l s'
    assume inv: "\<forall>n \<in> set (fst s). has_bssid n" and step: "netsh_line s l = Inr s'"
    obtain ns cur where s: "s = (ns, cur)" by (cases s)
    obtain ns' cur' where s': "s' = (ns', cur')" by (cases s')
    from step have "ns' = ns \<or> (ns' = ns @ [cur] \<and> has_bssid cur)"
      unfolding s s' using netsh_line_cases [of ns cur l ns' cur'] by blast
    with inv show "\<forall>n \<in> set (fst s'). has_bssid n"
      unfolding s s' by auto
  qed
  then show ?thesis
    unfolding nets flush_def by auto
qed

lemma termux_records:
  assumes "termux_get_wifi_bssids scan decoded = Inr nets"
  shows "\<forall>n \<in> set nets. 0 \<le> t_signal n \<and> t_signal n \<le> 100"
proof -
  from assms obtain aps where "termux_loop aps [] = Inr nets"
    unfolding termux_get_wifi_bssids_def
    by (auto split: run_result.splits py_error.splits if_splits loads_result.splits
        option.splits sum.splits)
  then show ?thesis
    by (rule termux_loop_all) (simp_all add: termux_network_of_signal)
qed

lemma termux_array_length:
  assumes "termux_get_wifi_bssids scan (Loaded (JArr aps)) = Inr nets"
  shows "length nets = length aps"
proof -
  from assms have "termux_loop aps [] = Inr nets"
    unfolding termux_get_wifi_bssids_def
    by (auto split: run_result.splits py_error.splits if_splits)
  then show ?thesis
    by (simp add: termux_loop_length)
qed

text \<open>
  C8, as the specification states it, fails: the terse parser stores the number of the
  signal field as it stands, here 150.
\<close>

theorem nmcli_signal_above_100_counterexample:
  "get_wifi_bssids_nmcli (Completed 0 [] [])
     (Completed 0
        (''Cafe:aa'' @ [CHR 0x5C] @ '':bb'' @ [CHR 0x5C] @ '':cc'' @ [CHR 0x5C] @ '':dd'' @
         [CHR 0x5C] @ '':ee'' @ [CHR 0x5C] @ '':ff:150:6'') []) =
     Inr [\<lparr>ssid = Some ''Cafe'', bssid = Some ''aa:bb:cc:dd:ee:ff'',
           signal = Some (Some 150), channel = Some (Some 6)\<rparr>] \<and>
   \<not> (150 \<le> (100::int))"
  by code_simp

text \<open>
  C8, amended. In the records of all three parsers a signal that is present is a
  non-negative integer. It lies between 0 and 100 in every record of the JSON parser and
  wherever the iwlist parser converts a dBm level; the terse parser, and the iwlist
  parser on a ratio, store the number they computed without clamping it from above.
\<close>

theorem signal_bounds:
  "(termux_get_wifi_bssids scan decoded = Inr tnets \<longrightarrow>
      (\<forall>n \<in> set tnets. 0 \<le> t_signal n \<and> t_signal n \<le> 100)) \<and>
   (get_wifi_bssids_nmcli rescan listing = Inr nets \<longrightarrow>
      (\<forall>n \<in> set nets. \<forall>v. get_signal n = Some v \<longrightarrow> 0 \<le> v)) \<and>
   (get_wifi_bssids_iwlist scan' = Inr nets' \<longrightarrow>
      (\<forall>n \<in> set nets'. \<forall>v. get_signal n = Some v \<longrightarrow> 0 \<le> v)) \<and>
   0 \<le> iwlist_dbm_signal dbm \<and> iwlist_dbm_signal dbm \<le> 100"
  using termux_records [of scan decoded tnets] nmcli_records [of rescan listing nets]
    iwlist_records [of scan' nets'] iwlist_dbm_signal_range [of dbm]
  by blast

theorem signal_bounds_witness:
  "termux_get_wifi_bssids (Completed 0 [] [])
     (Loaded (JArr [JObj [(''bssid'', JStr ''AA:BB:CC:DD:EE:FF''), (''rssi'', JInt (- 60)),
                          (''frequency_mhz'', JInt 2437)]])) =
     Inr [\<lparr>t_ssid = JStr ''<Hidden>'', t_bssid = ''aa:bb:cc:dd:ee:ff'', t_signal = 50,
           t_rssi_dbm = JInt (- 60), t_channel = Some 6, t_frequency_mhz = JInt 2437\<rparr>] \<and>
   (0::int) \<le> 50 \<and> (50::int) \<le> 100 \<and>
   get_wifi_bssids_nmcli (Completed 0 [] []) (Completed 0 ''Cafe:aa:80:6'' []) =
     Inr [\<lparr>ssid = Some ''Cafe'', bssid = Some ''aa'', signal = Some (Some 80),
           channel = Some (Some 6)\<rparr>] \<and>
   (0::int) \<le> 80 \<and>
   get_wifi_bssids_iwlist
     (Completed 0 (''Cell 01 - Address: AA:BB:CC:DD:EE:01'' @ [CHR 0x0A] @
                   ''    Signal level=50/70'') []) =
     Inr [\<lparr>ssid = None, bssid = Some ''aa:bb:cc:dd:ee:01'', signal = Some (Some 71),
           channel = None\<rparr>] \<and>
   (0::int) \<le> 71 \<and>
   0 \<le> iwlist_dbm_signal (- 60) \<and> iwlist_dbm_signal (- 60) \<le> 100"
proof -
  let ?decoded = "Loaded (JArr [JObj [(''bssid'', JStr ''AA:BB:CC:DD:EE:FF''),
                    (''rssi'', JInt (- 60)), (''frequency_mhz'', JInt 2437)]])"
  let ?tnet = "\<lparr>t_ssid = JStr ''<Hidden>'', t_bssid = ''aa:bb:cc:dd:ee:ff'', t_signal = 50,
                t_rssi_dbm = JInt (- 60), t_channel = Some 6, t_frequency_mhz = JInt 2437\<rparr>"
  let ?listing = "Completed 0 ''Cafe:aa:80:6'' []"
  let ?net = "\<lparr>ssid = Some ''Cafe'', bssid = Some ''aa'', signal = Some (Some 80),
               channel = Some (Some 6)\<rparr>"
  let ?scan = "Completed 0 (''Cell 01 - Address: AA:BB:CC:DD:EE:01'' @ [CHR 0x0A] @
                            ''    Signal level=50/70'') []"
  let ?cell = "\<lparr>ssid = None, bssid = Some ''aa:bb:cc:dd:ee:01'', signal = Some (Some 71),
                channel = None\<rparr>"
  have a: "termux_get_wifi_bssids (Completed 0 [] []) ?decoded = Inr [?tnet]"
    by code_simp
  have b: "get_wifi_bssids_nmcli (Completed 0 [] []) ?listing = Inr [?net]"
    by code_simp
  have c: "get_wifi_bssids_iwlist ?scan = Inr [?cell]"
    by code_simp
  note t = signal_bounds [of "Completed 0 [] []" ?decoded "[?tnet]" "Completed 0 [] []" ?listing
      "[?net]" ?scan "[?cell]" "- 60"]
  have "\<forall>n \<in> set [?tnet]. 0 \<le> t_signal n \<and> t_signal n \<le> 100"
    by (rule t [THEN conjunct1, THEN mp]) (rule a)
  then have ta: "(0::int) \<le> 50 \<and> (50::int) \<le> 100"
    by simp
  have "\<forall>n \<in> set [?net]. \<forall>v. get_signal n = Some v \<longrightarrow> 0 \<le> v"
    by (rule t [THEN conjunct2, THEN conjunct1, THEN mp]) (rule b)
  then have tb: "(0::int) \<le> 80"
    by (simp add: get_signal_def)
  have "\<forall>n \<in> set [?cell]. \<forall>v. get_signal n = Some v \<longrightarrow> 0 \<le> v"
    by (rule t [THEN conjunct2, THEN conjunct2, THEN conjunct1, THEN mp]) (rule c)
  then have tc: "(0::int) \<le> 71"
    by (simp add: get_signal_def)
  have td: "0 \<le> iwlist_dbm_signal (- 60) \<and> iwlist_dbm_signal (- 60) \<le> 100"
    by (rule t [THEN conjunct2, THEN conjunct2, THEN conjunct2])
  from a b c ta tb tc td show ?thesis
    by (intro conjI) simp_all
qed

text \<open>
  C9, as the specification states it, fails: the terse parser appends the record of a
  line whose BSSID field is empty.
\<close>

theorem nmcli_empty_bssid_counterexample:
  "get_wifi_bssids_nmcli (Completed 0 [] []) (Completed 0 ''Cafe::70:11'' []) =
     Inr [\<lparr>ssid = Some ''Cafe'', bssid = Some [], signal = Some (Some 70),
           channel = Some (Some 11)\<rparr>] \<and>
   \<not> has_bssid \<lparr>ssid = Some ''Cafe'', bssid = Some [], signal = Some (Some 70),
                 channel = Some (Some 11)\<rparr>"
  by code_simp

text \<open>
  C9, amended. Every record the two multi-line parsers return has a BSSID that is not
  empty: an accumulator without one is dropped. Every record of the terse parser has a
  \<open>bssid\<close> entry, which can be the empty string, and the JSON parser returns one record
  for each element of the array: neither drops an entry for want of a BSSID.
\<close>

theorem bssid_of_records:
  "(get_wifi_bssids_iwlist scan = Inr nets \<longrightarrow> (\<forall>n \<in> set nets. has_bssid n)) \<and>
   (windows_get_wifi_bssids scan' = Inr nets' \<longrightarrow> (\<forall>n \<in> set nets'. has_bssid n)) \<and>
   (get_wifi_bssids_nmcli rescan listing = Inr nets'' \<longrightarrow> (\<forall>n \<in> set nets''. bssid n \<noteq> None)) \<and>
   (termux_get_wifi_bssids scan'' (Loaded (JArr aps)) = Inr tnets \<longrightarrow> length tnets = length aps)"
  using iwlist_records [of scan nets] netsh_records [of scan' nets']
    nmcli_records [of rescan listing nets''] termux_array_length [of scan'' aps tnets]
  by blast

theorem bssid_of_records_witness:
  "get_wifi_bssids_iwlist
     (Completed 0 (''Cell 01 - Address: AA:BB:CC:DD:EE:01'' @ [CHR 0x0A] @
                   ''    ESSID:'' @ [CHR 0x22] @ ''Home'' @ [CHR 0x22] @ [CHR 0x0A] @
                   ''Cell 02 - no address'') []) =
     Inr [\<lparr>ssid = Some ''Home'', bssid = Some ''aa:bb:cc:dd:ee:01'', signal = None,
           channel = None\<rparr>] \<and>
   has_bssid \<lparr>ssid = Some ''Home'', bssid = Some ''aa:bb:cc:dd:ee:01'', signal = None,
              channel = None\<rparr> \<and>
   windows_get_wifi_bssids
     (Completed 0 (''SSID 1 : Home'' @ [CHR 0x0A] @ ''    Signal : 80%'' @ [CHR 0x0A] @
                   ''SSID 2 : Cafe'' @ [CHR 0x0A] @ ''    BSSID 1 : aa:bb:cc:dd:ee:02'') []) =
     Inr [\<lparr>ssid = Some ''Cafe'', bssid = Some ''aa:bb:cc:dd:ee:02'', signal = Some (Some 80),
           channel = None\<rparr>] \<and>
   has_bssid \<lparr>ssid = Some ''Cafe'', bssid = Some ''aa:bb:cc:dd:ee:02'', signal = Some (Some 80),
              channel = None\<rparr> \<and>
   get_wifi_bssids_nmcli (Completed 0 [] []) (Completed 0 ''Cafe::70:11'' []) =
     Inr [\<lparr>ssid = Some ''Cafe'', bssid = Some [], signal = Some (Some 70),
           channel = Some (Some 11)\<rparr>] \<and>
   bssid \<lparr>ssid = Some ''Cafe'', bssid = Some [], signal = Some (Some 70),
          channel = Some (Some 11)\<rparr> \<noteq> None \<and>
   termux_get_wifi_bssids (Completed 0 [] []) (Loaded (JArr [JObj []])) =
     Inr [\<lparr>t_ssid = JStr ''<Hidden>'', t_bssid = [], t_signal = 0, t_rssi_dbm = JNull,
           t_channel = None, t_frequency_mhz = JNull\<rparr>] \<and>
   length [\<lparr>t_ssid = JStr ''<Hidden>'', t_bssid = [], t_signal = 0, t_rssi_dbm = JNull,
            t_channel = None, t_frequency_mhz = JNull\<rparr>] = length [JObj []]"
proof -
  let ?iw = "Completed 0 (''Cell 01 - Address: AA:BB:CC:DD:EE:01'' @ [CHR 0x0A] @
                   ''    ESSID:'' @ [CHR 0x22] @ ''Home'' @ [CHR 0x22] @ [CHR 0x0A] @
                   ''Cell 02 - no address'') []"
  let ?iwnet = "\<lparr>ssid = Some ''Home'', bssid = Some ''aa:bb:cc:dd:ee:01'', signal = None,
                 channel = None\<rparr>"
  let ?win = "Completed 0 (''SSID 1 : Home'' @ [CHR 0x0A] @ ''    Signal : 80%'' @ [CHR 0x0A] @
                   ''SSID 2 : Cafe'' @ [CHR 0x0A] @ ''    BSSID 1 : aa:bb:cc:dd:ee:02'') []"
  let ?winnet = "\<lparr>ssid = Some ''Cafe'', bssid = Some ''aa:bb:cc:dd:ee:02'',
                  signal = Some (Some 80), channel = None\<rparr>"
  let ?listing = "Completed 0 ''Cafe::70:11'' []"
  let ?net = "\<lparr>ssid = Some ''Cafe'', bssid = Some [], signal = Some (Some 70),
               channel = Some (Some 11)\<rparr>"
  let ?tnet = "\<lparr>t_ssid = JStr ''<Hidden>'', t_bssid = [], t_signal = 0, t_rssi_dbm = JNull,
                t_channel = None, t_frequency_mhz = JNull\<rparr>"
  have a: "get_wifi_bssids_iwlist ?iw = Inr [?iwnet]"
    by code_simp
  have b: "windows_get_wifi_bssids ?win = Inr [?winnet]"
    by code_simp
  have c: "get_wifi_bssids_nmcli (Completed 0 [] []) ?listing = Inr [?net]"
    by code_simp
  have d: "termux_get_wifi_bssids (Completed 0 [] []) (Loaded (JArr [JObj []])) = Inr [?tnet]"
    by code_simp
  note t = bssid_of_records [of ?iw "[?iwnet]" ?win "[?winnet]" "Completed 0 [] []" ?listing
      "[?net]" "Completed 0 [] []" "[JObj []]" "[?tnet]"]
  have "\<forall>n \<in> set [?iwnet]. has_bssid n"
    by (rule t [THEN conjunct1, THEN mp]) (rule a)
  then have ta: "has_bssid ?iwnet"
    by simp
  have "\<forall>n \<in> set [?winnet]. has_bssid n"
    by (rule t [THEN conjunct2, THEN conjunct1, THEN mp]) (rule b)
  then have tb: "has_bssid ?winnet"
    by simp
  have "\<forall>n \<in> set [?net]. bssid n \<noteq> None"
    by (rule t [THEN conjunct2, THEN conjunct2, THEN conjunct1, THEN mp]) (rule c)
  then have tc: "bssid ?net \<noteq> None"
    by simp
  have td: "length [?tnet] = length [JObj []]"
    by (rule t [THEN conjunct2, THEN conjunct2, THEN conjunct2, THEN mp]) (rule d)
  from a b c d ta tb tc td show ?thesis
    by (intro conjI) simp_all
qed

section \<open>Flushing the accumulator\<close>








end
